theory Spec2Isabelle
  imports Main "HOL-Library.Sublist"
begin

section \<open>Python strings\<close>

text \<open>
  Code texts, queries and messages are modelled as \<open>string\<close> (lists of 8-bit
  characters) read as ASCII text; for them \<open>str.isspace\<close>, the line boundaries of
  \<open>str.splitlines\<close> and the identifier syntax are their ASCII parts. Column names are
  modelled apart, as lists of Unicode code points, with the character tables of the
  Python runtime as parameters.
\<close>

definition is_space :: "char \<Rightarrow> bool" where
  \<comment> \<open>\<open>str.isspace\<close> on ASCII: TAB, LF, VT, FF, CR, FS, GS, RS, US, SPACE\<close>
  "is_space c \<longleftrightarrow> (let n = (of_char c :: nat) in (9 \<le> n \<and> n \<le> 13) \<or> (28 \<le> n \<and> n \<le> 32))"

definition is_linebreak :: "char \<Rightarrow> bool" where
  \<comment> \<open>the one-character line boundaries of \<open>str.splitlines\<close>: LF, VT, FF, CR, FS, GS, RS\<close>
  "is_linebreak c \<longleftrightarrow> (let n = (of_char c :: nat) in (10 \<le> n \<and> n \<le> 13) \<or> (28 \<le> n \<and> n \<le> 30))"

definition ascii_letter :: "char \<Rightarrow> bool" where
  "ascii_letter c \<longleftrightarrow> (let n = (of_char c :: nat) in (65 \<le> n \<and> n \<le> 90) \<or> (97 \<le> n \<and> n \<le> 122))"

definition ascii_digit :: "char \<Rightarrow> bool" where
  "ascii_digit c \<longleftrightarrow> (let n = (of_char c :: nat) in 48 \<le> n \<and> n \<le> 57)"

definition strip_chars :: "('a \<Rightarrow> bool) \<Rightarrow> 'a list \<Rightarrow> 'a list" where
  \<comment> \<open>\<open>s.strip(chars)\<close>: drop the characters of the class at both ends\<close>
  "strip_chars P s = rev (dropWhile P (rev (dropWhile P s)))"

definition str_strip :: "string \<Rightarrow> string" where
  \<comment> \<open>\<open>s.strip()\<close>\<close>
  "str_strip s = strip_chars is_space s"

definition sub_each :: "('a \<Rightarrow> bool) \<Rightarrow> 'a \<Rightarrow> 'a list \<Rightarrow> 'a list" where
  \<comment> \<open>\<open>re.sub('[class]', r, s)\<close>: every character of the class becomes \<open>r\<close>\<close>
  "sub_each P r s = map (\<lambda>c. if P c then r else c) s"

function sub_runs :: "('a \<Rightarrow> bool) \<Rightarrow> 'a \<Rightarrow> 'a list \<Rightarrow> 'a list" where
  \<comment> \<open>\<open>re.sub('[class]+', r, s)\<close>: every maximal run of the class becomes one \<open>r\<close>\<close>
  "sub_runs P r [] = []"
| "sub_runs P r (c # cs) =
     (if P c then r # sub_runs P r (dropWhile P cs) else c # sub_runs P r cs)"
  by pat_completeness auto
termination
  by (relation "measure (\<lambda>(P, r, s). length s)") (auto simp: length_dropWhile_le less_Suc_eq_le)

fun split_on :: "char \<Rightarrow> string \<Rightarrow> string list" where
  \<comment> \<open>\<open>s.split(sep)\<close> for a one-character separator; never empty\<close>
  "split_on sep [] = [[]]"
| "split_on sep (c # cs) =
     (if c = sep then [] # split_on sep cs
      else (case split_on sep cs of [] \<Rightarrow> [[c]] | l # ls \<Rightarrow> (c # l) # ls))"

fun splitlines_from :: "string \<Rightarrow> string \<Rightarrow> string list" where
  \<comment> \<open>the scan of \<open>str.splitlines\<close>; the first argument is the line read so far\<close>
  "splitlines_from cur [] = (if cur = [] then [] else [cur])"
| "splitlines_from cur [c] = (if is_linebreak c then [cur] else [cur @ [c]])"
| "splitlines_from cur (c # d # cs) =
     (if c = CHR 0x0D \<and> d = CHR 0x0A then cur # splitlines_from [] cs
      else if is_linebreak c then cur # splitlines_from [] (d # cs)
      else splitlines_from (cur @ [c]) (d # cs))"

definition splitlines :: "string \<Rightarrow> string list" where
  \<comment> \<open>\<open>s.splitlines()\<close>: CR LF counts once, and a final line break opens no empty last line\<close>
  "splitlines s = splitlines_from [] s"

fun str_join :: "'a list \<Rightarrow> 'a list list \<Rightarrow> 'a list" where
  \<comment> \<open>\<open>sep.join(lines)\<close>\<close>
  "str_join sep [] = []"
| "str_join sep [l] = l"
| "str_join sep (l # m # ls) = l @ sep @ str_join sep (m # ls)"

fun contains :: "string \<Rightarrow> string \<Rightarrow> bool" where
  \<comment> \<open>\<open>sub in s\<close>\<close>
  "contains sub [] = (sub = [])"
| "contains sub (c # cs) = (prefix sub (c # cs) \<or> contains sub cs)"

definition startswith :: "string \<Rightarrow> string \<Rightarrow> bool" where
  \<comment> \<open>\<open>s.startswith(p)\<close>\<close>
  "startswith s p \<longleftrightarrow> prefix p s"

definition isidentifier :: "string \<Rightarrow> bool" where
  \<comment> \<open>\<open>s.isidentifier()\<close> on ASCII text; as in Python, keywords pass\<close>
  "isidentifier s \<longleftrightarrow>
     (case s of [] \<Rightarrow> False
      | c # cs \<Rightarrow> (ascii_letter c \<or> c = CHR ''_'')
                 \<and> list_all (\<lambda>d. ascii_letter d \<or> ascii_digit d \<or> d = CHR ''_'') cs)"

fun str_nat :: "nat \<Rightarrow> string" where
  \<comment> \<open>\<open>str(n)\<close> for \<open>n \<ge> 0\<close>, in decimal\<close>
  "str_nat n = (if n < 10 then [char_of (48 + n)] else str_nat (n div 10) @ [char_of (48 + n mod 10)])"

declare str_nat.simps [simp del]

definition str_int :: "int \<Rightarrow> string" where
  "str_int i = (if i < 0 then CHR ''-'' # str_nat (nat (- i)) else str_nat (nat i))"

section \<open>helpers.py\<close>

definition is_fence :: "string \<Rightarrow> bool" where
  \<comment> \<open>\<open>line.strip() == '```' or line.strip() == '```python'\<close>\<close>
  "is_fence line \<longleftrightarrow> str_strip line = ''```'' \<or> str_strip line = ''```python''"

definition clean_code_fences :: "string \<Rightarrow> string" where
  "clean_code_fences code =
     (let lines = splitlines code;
          clean_lines = filter (\<lambda>line. \<not> is_fence line) lines
      in str_join ''\<newline>'' clean_lines)"

text \<open>
  A column name is a Python \<open>str\<close> of any content: a list of Unicode code points. What
  \<open>sanitize_column_name\<close> does with it depends on the character tables of the Python
  runtime, which are not part of the repository and are parameters: \<open>uc_word\<close> is the
  regex class \<open>\w\<close>, \<open>uc_space\<close> the regex class \<open>\s\<close>, \<open>uc_lower\<close> is \<open>str.lower\<close> (on
  whole strings: it may change the length and look at neighbours), and \<open>uc_upper\<close> is
  \<open>str.isupper\<close> on one character.
\<close>

type_synonym ustring = "nat list"

record unicode_db =
  uc_word :: "nat \<Rightarrow> bool"
  uc_space :: "nat \<Rightarrow> bool"
  uc_lower :: "ustring \<Rightarrow> ustring"
  uc_upper :: "nat \<Rightarrow> bool"

definition underscore :: nat where
  \<comment> \<open>the code point of \<open>_\<close>\<close>
  "underscore = 95"

definition is_underscore :: "nat \<Rightarrow> bool" where
  "is_underscore c \<longleftrightarrow> c = underscore"

definition is_special :: "unicode_db \<Rightarrow> nat \<Rightarrow> bool" where
  \<comment> \<open>the regex class \<open>[^\w\s]\<close>\<close>
  "is_special T c \<longleftrightarrow> \<not> (uc_word T c \<or> uc_space T c)"

definition sanitize_column_name :: "unicode_db \<Rightarrow> ustring \<Rightarrow> ustring" where
  "sanitize_column_name T col_name =
     (let sanitized = sub_each (is_special T) underscore (uc_lower T col_name);
          sanitized = sub_runs (uc_space T) underscore sanitized;
          sanitized = sub_runs is_underscore underscore sanitized;
          sanitized = strip_chars is_underscore sanitized
      in sanitized)"

definition ustr :: "string \<Rightarrow> ustring" where
  \<comment> \<open>an ASCII text as code points\<close>
  "ustr s = map of_char s"

definition drop_last_empty :: "string list \<Rightarrow> string list" where
  \<comment> \<open>a list of lines without its last line when that line is empty\<close>
  "drop_last_empty ls = (if ls \<noteq> [] \<and> last ls = [] then butlast ls else ls)"

definition remaining_lines :: "string \<Rightarrow> string list" where
  \<comment> \<open>the lines of a text that are not fence markers: \<open>clean_lines\<close> in \<open>clean_code_fences\<close>\<close>
  "remaining_lines code = filter (\<lambda>line. \<not> is_fence line) (splitlines code)"

section \<open>Python values, exceptions and results\<close>

text \<open>
  An exception is its class name and its message (\<open>str(e)\<close>). Only exceptions derived
  from \<open>Exception\<close> are modelled, the ones every \<open>except Exception\<close> of the source
  catches. A call either returns a value or raises.
\<close>

datatype exn = Exn (exn_class: string) (exn_message: string)

datatype 'a result = Returns 'a | Raises exn

definition ValueError :: "string \<Rightarrow> exn" where
  "ValueError msg = Exn ''ValueError'' msg"

definition TypeError :: "string \<Rightarrow> exn" where
  "TypeError msg = Exn ''TypeError'' msg"

definition Exception :: "string \<Rightarrow> exn" where
  "Exception msg = Exn ''Exception'' msg"

definition str_exn :: "exn \<Rightarrow> string" where
  \<comment> \<open>\<open>str(e)\<close>\<close>
  "str_exn e = exn_message e"

record dataframe =
  columns :: "ustring list"
  data :: "string list list"

type_synonym tables = "(string \<times> dataframe) list"

text \<open>
  The values a namespace can hold: \<open>None\<close>, a \<open>pandas.DataFrame\<close>, the dictionary of
  input tables, a module, and any other object, given by its type name and by its
  length when it supports \<open>len()\<close> (a list, a string, a \<open>Series\<close>).
\<close>

datatype pyval =
    PyNone
  | DataFrame dataframe
  | TableDict tables
  | Module string
  | Object string "nat option"

fun is_DataFrame :: "pyval \<Rightarrow> bool" where
  \<comment> \<open>\<open>isinstance(v, pd.DataFrame)\<close>\<close>
  "is_DataFrame (DataFrame d) = True"
| "is_DataFrame v = False"

fun type_name :: "pyval \<Rightarrow> string" where
  "type_name PyNone = ''NoneType''"
| "type_name (DataFrame d) = ''DataFrame''"
| "type_name (TableDict t) = ''dict''"
| "type_name (Module m) = ''module''"
| "type_name (Object tn n) = tn"

definition no_len :: "pyval \<Rightarrow> exn" where
  "no_len v = TypeError (''object of type '' @ [CHR 0x27] @ type_name v @ [CHR 0x27] @ '' has no len()'')"

fun py_len :: "pyval \<Rightarrow> nat result" where
  \<comment> \<open>\<open>len(v)\<close>\<close>
  "py_len (DataFrame d) = Returns (length (data d))"
| "py_len (TableDict t) = Returns (length t)"
| "py_len (Object tn (Some n)) = Returns n"
| "py_len v = Raises (no_len v)"

text \<open>
  A dictionary whose iteration order matters is an association list in insertion
  order; \<open>d.get(k)\<close> is \<open>None\<close> for a missing key.
\<close>

type_synonym namespace = "(string \<times> pyval) list"

definition dict_get :: "namespace \<Rightarrow> string \<Rightarrow> pyval" where
  "dict_get ns k = (case map_of ns k of None \<Rightarrow> PyNone | Some v \<Rightarrow> v)"

section \<open>etl/transform\_agent.py\<close>

text \<open>
  The completion service and the Python interpreter are outside the repository. The
  model takes them as parameters: \<open>generate_content\<close> maps a prompt to the reply
  text or raises, \<open>exec\<close> maps a code text and the namespace it starts from to the
  namespace it leaves or raises, \<open>describe\<close> renders the \<open>data_info\<close> dictionary
  of the input tables.
\<close>

definition transformation_prompt :: "string \<Rightarrow> string \<Rightarrow> string" where
  "transformation_prompt user_query data_info =
     ''You are a data transformation expert. Generate Python pandas code to transform data based on this request:\<newline>\<newline>User Query: \"''
     @ user_query @
     ''\"\<newline>\<newline>Available DataFrames and their structure:\<newline>''
     @ data_info @
     ''\<newline>\<newline>Requirements:\<newline>1. Use pandas operations to transform the data\<newline>2. Input DataFrames are available in a dict called 'dataframes'\<newline>3. CRITICAL: You MUST end your code with: result_df = your_final_dataframe\<newline>4. Handle missing values appropriately\<newline>5. Add comments explaining the logic\<newline>6. Return ONLY the Python code, no explanations\<newline>\<newline>Example format:\<newline>import pandas as pd\<newline>import numpy as np\<newline>\<newline># Get data\<newline>df = dataframes['source_name']\<newline>\<newline># Do transformations\<newline>df_transformed = df.groupby('column').sum()\<newline>\<newline># MANDATORY: Assign final result to result_df\<newline>result_df = df_transformed\<newline>''"

definition assignment_target :: "string \<Rightarrow> string option" where
  \<comment> \<open>the test of one line in the reverse scan: the name the line assigns to, if it has the shape \<open>name = ...\<close>\<close>
  "assignment_target raw_line =
     (let line = str_strip raw_line in
      if contains ''='' line \<and> \<not> startswith line ''#'' then
        (let var_name = str_strip (hd (split_on (CHR ''='') line)) in
         if var_name \<noteq> [] \<and> isidentifier var_name then Some var_name else None)
      else None)"

fun scan_lines :: "string list \<Rightarrow> nat \<Rightarrow> string option" where
  \<comment> \<open>\<open>for i in range(len(lines) - 1, -1, -1)\<close>, up to the \<open>break\<close>; the second argument is \<open>i + 1\<close>\<close>
  "scan_lines lines 0 = None"
| "scan_lines lines (Suc i) =
     (case assignment_target (lines ! i) of
        Some var_name \<Rightarrow> Some var_name
      | None \<Rightarrow> scan_lines lines i)"

definition assign_result :: "string \<Rightarrow> string" where
  \<comment> \<open>the text appended for \<open>var_name\<close>\<close>
  "assign_result var_name = ''\<newline>\<newline># Assign result\<newline>result_df = '' @ var_name @ ''\<newline>''"

definition add_result_df :: "string \<Rightarrow> string" where
  \<comment> \<open>the block \<open>if 'result_df' not in code: ...\<close> of \<open>generate_transformation_code\<close>\<close>
  "add_result_df code =
     (if \<not> contains ''result_df'' code then
        (let lines = split_on (CHR 0x0A) code in
         case scan_lines lines (length lines) of
           Some var_name \<Rightarrow> code @ assign_result var_name
         | None \<Rightarrow> code)
      else code)"

definition generate_transformation_code ::
  "(string \<Rightarrow> string result) \<Rightarrow> string \<Rightarrow> string \<Rightarrow> string result" where
  "generate_transformation_code generate_content user_query data_info =
     (case generate_content (transformation_prompt user_query data_info) of
        Raises e \<Rightarrow> Raises e
      | Returns text \<Rightarrow> Returns (add_result_df (clean_code_fences text)))"

definition find_candidates :: "namespace \<Rightarrow> namespace" where
  \<comment> \<open>the loop over \<open>exec_globals.items()\<close> that collects \<open>candidates\<close>\<close>
  "find_candidates exec_globals =
     filter (\<lambda>(var_name, var_value).
        is_DataFrame var_value \<and> var_name \<notin> set [''pd'', ''dataframes'']
        \<and> \<not> startswith var_name ''_'') exec_globals"

definition no_result :: exn where
  "no_result = ValueError ''Transformation code did not produce 'result_df' or any other DataFrame''"

definition recover_result :: "namespace \<Rightarrow> pyval result" where
  \<comment> \<open>\<open>execute_transformation\<close> after \<open>exec\<close> has returned\<close>
  "recover_result exec_globals =
     (let result_df = dict_get exec_globals ''result_df'';
          result_df =
            (if result_df = PyNone then
               (let candidates = find_candidates exec_globals in
                if candidates \<noteq> [] then snd (last candidates) else result_df)
             else result_df)
      in if result_df = PyNone then Raises no_result
         else (case py_len result_df of
                 Raises e \<Rightarrow> Raises e
               | Returns n \<Rightarrow> Returns result_df))"

definition initial_globals :: "tables \<Rightarrow> namespace" where
  "initial_globals dataframes =
     [(''pd'', Module ''pandas''), (''dataframes'', TableDict dataframes), (''result_df'', PyNone),
      (''np'', Module ''numpy'')]"

definition execute_transformation ::
  "(string \<Rightarrow> namespace \<Rightarrow> namespace result) \<Rightarrow> string \<Rightarrow> tables \<Rightarrow> pyval result" where
  \<comment> \<open>the handler \<open>except Exception as e\<close> logs and re-raises \<open>e\<close>\<close>
  "execute_transformation exec code dataframes =
     (case exec code (initial_globals dataframes) of
        Raises e \<Rightarrow> Raises e
      | Returns exec_globals \<Rightarrow>
          (case recover_result exec_globals of
             Raises e \<Rightarrow> Raises e
           | Returns result_df \<Rightarrow> Returns result_df))"

record interpreter =
  generate_content :: "nat \<Rightarrow> string \<Rightarrow> string result"
  exec :: "string \<Rightarrow> namespace \<Rightarrow> namespace result"
  describe :: "tables \<Rightarrow> string"

definition transform :: "interpreter \<Rightarrow> nat \<Rightarrow> string \<Rightarrow> tables \<Rightarrow> pyval result" where
  \<comment> \<open>\<open>TransformAgent.transform\<close>; the number counts the calls of the completion service so far\<close>
  "transform env call user_query dataframes =
     (let data_info = describe env dataframes in
      case generate_transformation_code (generate_content env call) user_query data_info of
        Raises e \<Rightarrow> Raises e
      | Returns code \<Rightarrow> execute_transformation (exec env) code dataframes)"

definition fix_request :: "string \<Rightarrow> exn \<Rightarrow> string" where
  \<comment> \<open>the query of the next attempt\<close>
  "fix_request user_query e =
     user_query @ ''\<newline>\<newline>Previous attempt failed with error: '' @ str_exn e @ ''. Please fix the code.''"

definition str_last_error :: "exn option \<Rightarrow> string" where
  "str_last_error last_error = (case last_error of None \<Rightarrow> ''None'' | Some e \<Rightarrow> str_exn e)"

definition exhausted :: "int \<Rightarrow> exn option \<Rightarrow> exn" where
  "exhausted max_iterations last_error =
     Exception (''Transformation failed after '' @ str_int max_iterations @ '' attempts. Last error: ''
                @ str_last_error last_error)"

text \<open>
  The retry loop of \<open>iterative_transform\<close>. \<open>transform_fn\<close> is \<open>self.transform\<close> at
  a given attempt; the list \<open>calls\<close> records the query of every call of it, in order.
\<close>

function retry_loop ::
  "(nat \<Rightarrow> string \<Rightarrow> 'a result) \<Rightarrow> int \<Rightarrow> nat \<Rightarrow> string \<Rightarrow> exn option \<Rightarrow> string list
   \<Rightarrow> string list \<times> 'a result" where
  "retry_loop transform_fn max_iterations attempt user_query last_error calls =
     (if int attempt < max_iterations then
        (case transform_fn attempt user_query of
           Returns result_df \<Rightarrow> (calls @ [user_query], Returns result_df)
         | Raises e \<Rightarrow>
             retry_loop transform_fn max_iterations (Suc attempt)
               (if int attempt < max_iterations - 1 then fix_request user_query e else user_query)
               (Some e) (calls @ [user_query]))
      else (calls, Raises (exhausted max_iterations last_error)))"
  by pat_completeness auto
termination
  by (relation "measure (\<lambda>(f, m, a, q, e, c). nat (m - int a))") auto

declare retry_loop.simps [simp del]

definition iterative_transform ::
  "interpreter \<Rightarrow> string \<Rightarrow> tables \<Rightarrow> int \<Rightarrow> string list \<times> pyval result" where
  "iterative_transform env user_query dataframes max_iterations =
     retry_loop (\<lambda>attempt query. transform env attempt query dataframes)
       max_iterations 0 user_query None []"

definition feedback :: "exn \<Rightarrow> string" where
  \<comment> \<open>what one failed attempt adds to the query\<close>
  "feedback e = ''\<newline>\<newline>Previous attempt failed with error: '' @ str_exn e @ ''. Please fix the code.''"

definition binds :: "string \<Rightarrow> string \<Rightarrow> bool" where
  \<comment> \<open>the specification's test: the name is an assignment target somewhere in the code\<close>
  "binds name code \<longleftrightarrow> list_ex (\<lambda>line. assignment_target line = Some name) (split_on (CHR 0x0A) code)"

section \<open>etl/load\_agent.py\<close>

text \<open>
  Calls that change the world return their result together with the new state, so
  that what a call did before it raised stays visible.
\<close>

definition seq ::
  "('s \<Rightarrow> 'a result \<times> 's) \<Rightarrow> ('a \<Rightarrow> 's \<Rightarrow> 'b result \<times> 's) \<Rightarrow> 's \<Rightarrow> 'b result \<times> 's" where
  \<comment> \<open>one statement after another; an exception ends the sequence\<close>
  "seq m f s = (case m s of (Raises e, s') \<Rightarrow> (Raises e, s') | (Returns a, s') \<Rightarrow> f a s')"

text \<open>
  A value of a keyword argument or of a parsed JSON reply: a \<open>str\<close>, or any other value,
  given by its rendering \<open>str(v)\<close>.
\<close>

datatype jval = JStr string | JOther string

fun jstr :: "jval \<Rightarrow> string" where
  \<comment> \<open>\<open>f"{v}"\<close>\<close>
  "jstr (JStr s) = s"
| "jstr (JOther r) = r"

type_synonym kwargs = "string \<rightharpoonup> jval"

definition get_or :: "kwargs \<Rightarrow> string \<Rightarrow> jval \<Rightarrow> jval" where
  \<comment> \<open>\<open>d.get(k, default)\<close>\<close>
  "get_or d k dflt = (case d k of None \<Rightarrow> dflt | Some v \<Rightarrow> v)"

text \<open>
  DataFrames are objects: a table is passed by reference, and \<open>frames\<close> gives the
  value each reference holds. DuckDB, the file system, the completion service,
  \<open>json.loads\<close> and the character tables are outside the repository and are parameters. \<open>duckdb_execute\<close>
  gets the statement and the table the Python variable \<open>df\<close> holds when it runs.
\<close>

type_synonym ref = nat

record ('db, 'fs) backend =
  duckdb_connect :: "string \<Rightarrow> 'db result"
  duckdb_execute :: "string \<Rightarrow> dataframe \<Rightarrow> 'db \<Rightarrow> 'db result"
  mkdir_parent :: "jval \<Rightarrow> 'fs \<Rightarrow> 'fs result"
  write_file :: "string \<Rightarrow> jval \<Rightarrow> dataframe \<Rightarrow> 'fs \<Rightarrow> 'fs result"
  destination_reply :: "string \<Rightarrow> string result"
  json_loads :: "string \<Rightarrow> kwargs result"
  unicode_data :: unicode_db

record ('db, 'fs) agent_state =
  frames :: "ref \<Rightarrow> dataframe"
  conn :: "'db option"
  files :: 'fs

definition connect_duckdb ::
  "('db, 'fs) backend \<Rightarrow> string \<Rightarrow> ('db, 'fs) agent_state \<Rightarrow> unit result \<times> ('db, 'fs) agent_state" where
  "connect_duckdb be db_path st =
     (case duckdb_connect be db_path of
        Raises e \<Rightarrow> (Raises e, st)
      | Returns db \<Rightarrow> (Returns (), st\<lparr>conn := Some db\<rparr>))"

definition conn_execute ::
  "('db, 'fs) backend \<Rightarrow> string \<Rightarrow> ref \<Rightarrow> ('db, 'fs) agent_state \<Rightarrow> unit result \<times> ('db, 'fs) agent_state" where
  \<comment> \<open>\<open>self.conn.execute(sql)\<close>\<close>
  "conn_execute be sql df st =
     (case conn st of
        None \<Rightarrow> (Raises (Exn ''AttributeError''
                   ([CHR 0x27] @ ''NoneType' object has no attribute 'execute'' @ [CHR 0x27])), st)
      | Some db \<Rightarrow>
          (case duckdb_execute be sql (frames st df) db of
             Raises e \<Rightarrow> (Raises e, st)
           | Returns db' \<Rightarrow> (Returns (), st\<lparr>conn := Some db'\<rparr>)))"

definition set_columns ::
  "('db, 'fs) backend \<Rightarrow> ref \<Rightarrow> ('db, 'fs) agent_state \<Rightarrow> unit result \<times> ('db, 'fs) agent_state" where
  \<comment> \<open>\<open>df.columns = [sanitize_column_name(col) for col in df.columns]\<close>\<close>
  "set_columns be df st =
     (Returns (),
      st\<lparr>frames := (frames st)(df := (frames st df)
              \<lparr>columns := map (sanitize_column_name (unicode_data be)) (columns (frames st df))\<rparr>)\<rparr>)"

definition load_to_duckdb ::
  "('db, 'fs) backend \<Rightarrow> ref \<Rightarrow> jval \<Rightarrow> jval \<Rightarrow> ('db, 'fs) agent_state
   \<Rightarrow> unit result \<times> ('db, 'fs) agent_state" where
  "load_to_duckdb be df table_name mode =
     seq (\<lambda>st. if conn st = None then connect_duckdb be ''warehouse.duckdb'' st else (Returns (), st))
     (\<lambda>_. seq (set_columns be df)
     (\<lambda>_. seq (\<lambda>st. if mode = JStr ''replace''
                      then conn_execute be (''DROP TABLE IF EXISTS '' @ jstr table_name) df st
                      else (Returns (), st))
     (\<lambda>_. seq (conn_execute be (''CREATE TABLE IF NOT EXISTS '' @ jstr table_name @ '' AS SELECT * FROM df'') df)
     (\<lambda>_. conn_execute be (''SELECT COUNT(*) FROM '' @ jstr table_name) df))))"

definition load_to_file ::
  "('db, 'fs) backend \<Rightarrow> string \<Rightarrow> ref \<Rightarrow> jval \<Rightarrow> ('db, 'fs) agent_state
   \<Rightarrow> unit result \<times> ('db, 'fs) agent_state" where
  \<comment> \<open>\<open>load_to_csv\<close>, \<open>load_to_excel\<close> and \<open>load_to_parquet\<close>, by format\<close>
  "load_to_file be fmt df file_path st =
     (case write_file be fmt file_path (frames st df) (files st) of
        Raises e \<Rightarrow> (Raises e, st)
      | Returns fs \<Rightarrow> (Returns (), st\<lparr>files := fs\<rparr>))"

definition make_parent ::
  "('db, 'fs) backend \<Rightarrow> jval \<Rightarrow> ('db, 'fs) agent_state \<Rightarrow> unit result \<times> ('db, 'fs) agent_state" where
  \<comment> \<open>\<open>Path(file_path).parent.mkdir(parents=True, exist_ok=True)\<close>\<close>
  "make_parent be file_path st =
     (case mkdir_parent be file_path (files st) of
        Raises e \<Rightarrow> (Raises e, st)
      | Returns fs \<Rightarrow> (Returns (), st\<lparr>files := fs\<rparr>))"

definition destination_prompt :: "string \<Rightarrow> dataframe \<Rightarrow> string" where
  "destination_prompt user_query df =
     ''Based on this user query: \"'' @ user_query @ ''\"\<newline>\<newline>Data shape: ''
     @ str_nat (length (data df)) @ '' rows, '' @ str_nat (length (columns df))
     @ '' columns\<newline>\<newline>Determine the best destination for storing this data. Options:\<newline>- duckdb (for analytical queries, warehouse)\<newline>- csv (for simple export, sharing)\<newline>- excel (for business users, reports)\<newline>- parquet (for efficient storage, large data)\<newline>\<newline>Respond with JSON format:\<newline>{\"destination\": \"duckdb\", \"table_name\": \"result_table\", \"reason\": \"explanation\"}\<newline>or\<newline>{\"destination\": \"csv\", \"file_path\": \"results.csv\", \"reason\": \"explanation\"}\<newline>''"

definition re_search_object :: "string \<Rightarrow> string option" where
  \<comment> \<open>\<open>re.search(r'\{.*?\}', text, re.DOTALL)\<close>: from the first opening brace to the next closing one\<close>
  "re_search_object text =
     (case dropWhile (\<lambda>c. c \<noteq> CHR ''{'') text of
        [] \<Rightarrow> None
      | b # rest \<Rightarrow>
          (if CHR ''}'' \<in> set rest
           then Some (b # takeWhile (\<lambda>c. c \<noteq> CHR ''}'') rest @ ''}'')
           else None))"

definition default_destination :: kwargs where
  "default_destination =
     [''destination'' \<mapsto> JStr ''duckdb'', ''table_name'' \<mapsto> JStr ''ai_result'',
      ''reason'' \<mapsto> JStr ''Default destination'']"

definition fallback_destination :: kwargs where
  "fallback_destination =
     [''destination'' \<mapsto> JStr ''duckdb'', ''table_name'' \<mapsto> JStr ''result'',
      ''reason'' \<mapsto> JStr ''Fallback'']"

definition ask_destination :: "('db, 'fs) backend \<Rightarrow> string \<Rightarrow> kwargs result" where
  \<comment> \<open>the \<open>try\<close> block of \<open>ai_determine_destination\<close>\<close>
  "ask_destination be prompt =
     (case destination_reply be prompt of
        Raises e \<Rightarrow> Raises e
      | Returns response_text \<Rightarrow>
          (case re_search_object response_text of
             Some json_match \<Rightarrow> json_loads be json_match
           | None \<Rightarrow> Returns default_destination))"

definition ai_determine_destination ::
  "('db, 'fs) backend \<Rightarrow> string \<Rightarrow> dataframe \<Rightarrow> kwargs result" where
  "ai_determine_destination be user_query df =
     (case ask_destination be (destination_prompt user_query df) of
        Raises e \<Rightarrow> Returns fallback_destination
      | Returns destination_info \<Rightarrow> Returns destination_info)"

definition dispatch ::
  "('db, 'fs) backend \<Rightarrow> ref \<Rightarrow> jval \<Rightarrow> kwargs \<Rightarrow> ('db, 'fs) agent_state
   \<Rightarrow> jval result \<times> ('db, 'fs) agent_state" where
  \<comment> \<open>the chain \<open>if destination == 'duckdb': ... else: raise ValueError(...)\<close> of \<open>load\<close>\<close>
  "dispatch be df destination kwargs =
     (if destination = JStr ''duckdb'' then
        (let table_name = get_or kwargs ''table_name'' (JStr ''result_table'');
             mode = get_or kwargs ''mode'' (JStr ''replace'')
         in seq (load_to_duckdb be df table_name mode)
              (\<lambda>_ st. (Returns (JStr (''duckdb:'' @ jstr table_name)), st)))
      else if destination = JStr ''csv'' then
        (let file_path = get_or kwargs ''file_path'' (JStr ''output/result.csv'')
         in seq (make_parent be file_path)
            (\<lambda>_. seq (load_to_file be ''csv'' df file_path) (\<lambda>_ st. (Returns file_path, st))))
      else if destination = JStr ''excel'' then
        (let file_path = get_or kwargs ''file_path'' (JStr ''output/result.xlsx'')
         in seq (make_parent be file_path)
            (\<lambda>_. seq (load_to_file be ''excel'' df file_path) (\<lambda>_ st. (Returns file_path, st))))
      else if destination = JStr ''parquet'' then
        (let file_path = get_or kwargs ''file_path'' (JStr ''output/result.parquet'')
         in seq (make_parent be file_path)
            (\<lambda>_. seq (load_to_file be ''parquet'' df file_path) (\<lambda>_ st. (Returns file_path, st))))
      else (\<lambda>st. (Raises (ValueError (''Unsupported destination: '' @ jstr destination)), st)))"

definition load ::
  "('db, 'fs) backend \<Rightarrow> ref \<Rightarrow> string \<Rightarrow> jval option \<Rightarrow> kwargs \<Rightarrow> ('db, 'fs) agent_state
   \<Rightarrow> jval result \<times> ('db, 'fs) agent_state" where
  "load be df user_query destination kwargs st =
     (case destination of
        None \<Rightarrow>
          (case ai_determine_destination be user_query (frames st df) of
             Raises e \<Rightarrow> (Raises e, st)
           | Returns dest_info \<Rightarrow>
               dispatch be df (get_or dest_info ''destination'' (JStr ''duckdb'')) (kwargs ++ dest_info) st)
      | Some d \<Rightarrow> dispatch be df d kwargs st)"

definition supported :: "jval set" where
  "supported = {JStr ''duckdb'', JStr ''csv'', JStr ''excel'', JStr ''parquet''}"

section \<open>orchestrator/run\_pipeline.py\<close>

text \<open>
  The four agents are parameters of the orchestrator. The load stage returns the
  destination and the table as the load left it. The two readings of the clock are
  the arguments \<open>pipeline_start\<close> and \<open>pipeline_end\<close>, in microseconds.
\<close>

record 'a agents =
  ai_assisted_extract :: "string \<Rightarrow> string \<Rightarrow> tables result"
  transform_stage :: "string \<Rightarrow> tables \<Rightarrow> dataframe result"
  load_stage :: "dataframe \<Rightarrow> string \<Rightarrow> (jval \<times> dataframe) result"
  iterative_analyze :: "string \<Rightarrow> dataframe \<Rightarrow> 'a result"
  generate_summary :: "string \<Rightarrow> dataframe \<Rightarrow> 'a \<Rightarrow> string result"

datatype 'a stage_info =
    ExtractInfo "string list" "(string \<times> nat) list"
  | TransformInfo "nat \<times> nat" "ustring list"
  | LoadInfo jval
  | AnalyzeInfo 'a string
  | NoInfo

record 'a stage =
  stage_status :: string
  info :: "'a stage_info"

record 'a run_record =
  query :: string
  start_time :: int
  stages :: "(string \<times> 'a stage) list"
  end_time :: "int option"
  duration_seconds :: "int option"
  status :: "string option"
  error :: "string option"

definition set_stage :: "string \<Rightarrow> string \<Rightarrow> 'a stage_info \<Rightarrow> 'a run_record \<Rightarrow> 'a run_record" where
  \<comment> \<open>\<open>results['stages'][name] = {'status': st, ...}\<close>\<close>
  "set_stage name st i results =
     results\<lparr>stages := stages results @ [(name, \<lparr>stage_status = st, info = i\<rparr>)]\<rparr>"

definition extract_step ::
  "'a agents \<Rightarrow> string \<Rightarrow> string \<Rightarrow> 'a run_record \<Rightarrow> tables result \<times> 'a run_record" where
  "extract_step ag user_query data_directory results =
     (case ai_assisted_extract ag user_query data_directory of
        Raises e \<Rightarrow> (Raises e, results)
      | Returns extracted_data \<Rightarrow>
          (if extracted_data = [] then
             (Raises (ValueError ''No data extracted. Check data directory and file formats.''), results)
           else (Returns extracted_data,
                 set_stage ''extract'' ''success''
                   (ExtractInfo (map fst extracted_data)
                      (map (\<lambda>(name, df). (name, length (data df))) extracted_data)) results)))"

definition transform_step ::
  "'a agents \<Rightarrow> string \<Rightarrow> bool \<Rightarrow> tables \<Rightarrow> 'a run_record \<Rightarrow> dataframe result \<times> 'a run_record" where
  "transform_step ag user_query skip_transform extracted_data results =
     (if \<not> skip_transform then
        (case transform_stage ag user_query extracted_data of
           Raises e \<Rightarrow> (Raises e, results)
         | Returns transformed_df \<Rightarrow>
             (Returns transformed_df,
              set_stage ''transform'' ''success''
                (TransformInfo (length (data transformed_df), length (columns transformed_df))
                   (columns transformed_df)) results))
      else
        (case extracted_data of
           [] \<Rightarrow> (Raises (Exn ''IndexError'' ''list index out of range''), results)
         | (name, df) # rest \<Rightarrow> (Returns df, set_stage ''transform'' ''skipped'' NoInfo results)))"

definition load_step ::
  "'a agents \<Rightarrow> string \<Rightarrow> bool \<Rightarrow> dataframe \<Rightarrow> 'a run_record \<Rightarrow> dataframe result \<times> 'a run_record" where
  "load_step ag user_query skip_load transformed_df results =
     (if \<not> skip_load then
        (case load_stage ag transformed_df user_query of
           Raises e \<Rightarrow> (Raises e, results)
         | Returns (load_destination, df') \<Rightarrow>
             (Returns df', set_stage ''load'' ''success'' (LoadInfo load_destination) results))
      else (Returns transformed_df, set_stage ''load'' ''skipped'' NoInfo results))"

definition analyze_step ::
  "'a agents \<Rightarrow> string \<Rightarrow> bool \<Rightarrow> dataframe \<Rightarrow> 'a run_record \<Rightarrow> unit result \<times> 'a run_record" where
  "analyze_step ag user_query analyze transformed_df results =
     (if analyze then
        (case iterative_analyze ag user_query transformed_df of
           Raises e \<Rightarrow> (Raises e, results)
         | Returns analysis_results \<Rightarrow>
             (case generate_summary ag user_query transformed_df analysis_results of
                Raises e \<Rightarrow> (Raises e, results)
              | Returns summary \<Rightarrow>
                  (Returns (), set_stage ''analyze'' ''success''
                                 (AnalyzeInfo analysis_results summary) results)))
      else (Returns (), set_stage ''analyze'' ''skipped'' NoInfo results))"

definition run_stages ::
  "'a agents \<Rightarrow> string \<Rightarrow> string \<Rightarrow> bool \<Rightarrow> bool \<Rightarrow> bool \<Rightarrow> 'a run_record
   \<Rightarrow> unit result \<times> 'a run_record" where
  \<comment> \<open>the stages inside the \<open>try\<close> block of \<open>run\<close>\<close>
  "run_stages ag user_query data_directory skip_transform skip_load analyze =
     seq (extract_step ag user_query data_directory)
     (\<lambda>extracted_data. seq (transform_step ag user_query skip_transform extracted_data)
     (\<lambda>transformed_df. seq (load_step ag user_query skip_load transformed_df)
     (\<lambda>transformed_df. analyze_step ag user_query analyze transformed_df)))"

definition initial_results :: "string \<Rightarrow> int \<Rightarrow> 'a run_record" where
  \<comment> \<open>\<open>results\<close> as \<open>run\<close> creates it\<close>
  "initial_results user_query pipeline_start =
     \<lparr>query = user_query, start_time = pipeline_start, stages = [],
      end_time = None, duration_seconds = None, status = None, error = None\<rparr>"

definition run ::
  "'a agents \<Rightarrow> string \<Rightarrow> string \<Rightarrow> bool \<Rightarrow> bool \<Rightarrow> bool \<Rightarrow> int \<Rightarrow> int \<Rightarrow> 'a run_record" where
  "run ag user_query data_directory skip_transform skip_load analyze pipeline_start pipeline_end =
     (let results = initial_results user_query pipeline_start
      in case run_stages ag user_query data_directory skip_transform skip_load analyze results of
           (Returns u, results) \<Rightarrow>
             results\<lparr>end_time := Some pipeline_end,
                     duration_seconds := Some (pipeline_end - pipeline_start),
                     status := Some ''success''\<rparr>
         | (Raises e, results) \<Rightarrow>
             results\<lparr>status := Some ''failed'', error := Some (str_exn e),
                     end_time := Some pipeline_end\<rparr>)"

definition reported :: "string \<Rightarrow> 'a stage \<Rightarrow> bool" where
  \<comment> \<open>a stage entry of a record reports \<open>success\<close> or \<open>skipped\<close>\<close>
  "reported name s \<longleftrightarrow> stage_status s = ''success'' \<or> stage_status s = ''skipped''"

section \<open>Notions used in the statements\<close>

definition always_fails :: "(nat \<Rightarrow> string \<Rightarrow> 'a result) \<Rightarrow> bool" where
  \<comment> \<open>every attempt raises, whatever its query\<close>
  "always_fails transform_fn \<longleftrightarrow> (\<forall>attempt user_query. \<exists>e. transform_fn attempt user_query = Raises e)"

definition intent_after :: "string \<Rightarrow> exn list \<Rightarrow> string" where
  \<comment> \<open>the query after the given failures, oldest first\<close>
  "intent_after user_query errs = user_query @ concat (map feedback errs)"

definition renamed :: "unicode_db \<Rightarrow> dataframe \<Rightarrow> dataframe" where
  \<comment> \<open>a table with its column names sanitized\<close>
  "renamed T d = d\<lparr>columns := map (sanitize_column_name T) (columns d)\<rparr>"

definition kept :: "unicode_db \<Rightarrow> nat \<Rightarrow> bool" where
  \<comment> \<open>a word character other than the underscore: a letter or a digit\<close>
  "kept T c \<longleftrightarrow> uc_word T c \<and> \<not> is_underscore c"

function words_of :: "('a \<Rightarrow> bool) \<Rightarrow> 'a list \<Rightarrow> 'a list list" where
  \<comment> \<open>the maximal runs of characters of the class, in order\<close>
  "words_of P [] = []"
| "words_of P (c # cs) =
     (if P c then (c # takeWhile P cs) # words_of P (dropWhile P cs) else words_of P cs)"
  by pat_completeness auto
termination
  by (relation "measure (\<lambda>(P, s). length s)") (auto simp: length_dropWhile_le less_Suc_eq_le)

definition begins :: "('a \<Rightarrow> bool) \<Rightarrow> 'a list \<Rightarrow> bool" where
  \<comment> \<open>the list starts with a character of the class\<close>
  "begins P s \<longleftrightarrow> (case s of [] \<Rightarrow> False | c # cs \<Rightarrow> P c)"

definition tables_ok :: "unicode_db \<Rightarrow> bool" where
  \<comment> \<open>what the statements use of the character tables: the underscore is a word character,
      no word character is white space, and \<open>lower\<close> leaves every string unchanged that is made
      of underscores and of characters that \<open>lower\<close> has produced\<close>
  "tables_ok T \<longleftrightarrow>
     uc_word T underscore
     \<and> (\<forall>c. uc_word T c \<longrightarrow> \<not> uc_space T c)
     \<and> (\<forall>s t. set t \<subseteq> insert underscore (set (uc_lower T s)) \<longrightarrow> uc_lower T t = t)"

definition all_reported :: "'a run_record \<Rightarrow> bool" where
  \<comment> \<open>every stage entry of the record reports \<open>success\<close> or \<open>skipped\<close>\<close>
  "all_reported results \<longleftrightarrow> list_all (\<lambda>(name, s). reported name s) (stages results)"

definition same_header :: "'a run_record \<Rightarrow> 'a run_record \<Rightarrow> bool" where
  \<comment> \<open>two records differ in their stage entries at most\<close>
  "same_header r s \<longleftrightarrow> query s = query r \<and> start_time s = start_time r \<and> end_time s = end_time r
     \<and> duration_seconds s = duration_seconds r \<and> status s = status r \<and> error s = error r"

section \<open>Example inputs\<close>

text \<open>
  An excerpt of the character tables of CPython 3.11 (Unicode 14): the ASCII code points,
  U+0085 and U+00A0 (white space), U+00C9 and U+00E9 (E acute, upper and lower case) and
  U+03D2 (an upper-case Greek letter without a lower-case form). No other code point is
  in a class of the excerpt, and its \<open>lower\<close> leaves every other code point as it is.
\<close>

definition excerpt_lower :: "nat \<Rightarrow> nat" where
  "excerpt_lower c = (if 65 \<le> c \<and> c \<le> 90 then c + 32 else if c = 0xC9 then 0xE9 else c)"

definition excerpt :: unicode_db where
  "excerpt =
     \<lparr>uc_word = (\<lambda>c. (48 \<le> c \<and> c \<le> 57) \<or> (65 \<le> c \<and> c \<le> 90) \<or> c = 95 \<or> (97 \<le> c \<and> c \<le> 122)
                      \<or> c = 0xC9 \<or> c = 0xE9 \<or> c = 0x3D2),
      uc_space = (\<lambda>c. (9 \<le> c \<and> c \<le> 13) \<or> (28 \<le> c \<and> c \<le> 32) \<or> c = 0x85 \<or> c = 0xA0),
      uc_lower = map excerpt_lower,
      uc_upper = (\<lambda>c. (65 \<le> c \<and> c \<le> 90) \<or> c = 0xC9 \<or> c = 0x3D2)\<rparr>"

definition example_code :: string where
  \<comment> \<open>a reply of the completion service that never mentions \<open>result_df\<close>\<close>
  "example_code = ''df = dataframes['a']\<newline>total = df.sum()\<newline>print(total)''"

definition commented_code :: string where
  \<comment> \<open>a reply that mentions \<open>result_df\<close> in a comment only\<close>
  "commented_code = ''# result_df is the total\<newline>total = dataframes['a']''"

definition failing_env :: interpreter where
  \<comment> \<open>the completion service returns code that raises when it runs\<close>
  "failing_env = \<lparr>generate_content = (\<lambda>call prompt. Returns ''x = dataframes['a']''),
                  exec = (\<lambda>code globals. Raises (Exn ''KeyError'' ''a'')),
                  describe = (\<lambda>dataframes. ''{}'')\<rparr>"

definition series_globals :: "tables \<Rightarrow> dataframe \<Rightarrow> namespace" where
  \<comment> \<open>the namespace left by \<open>out = dataframes['a']\<close>, \<open>result_df = out['x']\<close>: a \<open>Series\<close> of three rows\<close>
  "series_globals dataframes out =
     [(''pd'', Module ''pandas''), (''dataframes'', TableDict dataframes),
      (''result_df'', Object ''Series'' (Some 3)), (''np'', Module ''numpy''),
      (''__builtins__'', Module ''builtins''), (''out'', DataFrame out)]"

definition stub_backend :: "(unit, unit) backend" where
  \<comment> \<open>a completion service that picks a destination outside the fixed set\<close>
  "stub_backend = \<lparr>duckdb_connect = (\<lambda>path. Returns ()),
                   duckdb_execute = (\<lambda>sql df db. Returns db),
                   mkdir_parent = (\<lambda>path fs. Returns fs),
                   write_file = (\<lambda>fmt path df fs. Returns fs),
                   destination_reply = (\<lambda>prompt. Returns ''Use {\"destination\": \"postgres\"} here''),
                   json_loads = (\<lambda>text. if text = ''{\"destination\": \"postgres\"}''
                                        then Returns [''destination'' \<mapsto> JStr ''postgres'']
                                        else Raises (Exn ''JSONDecodeError'' ''Expecting value'')),
                   unicode_data = excerpt\<rparr>"

definition chatty_backend :: "(unit, unit) backend" where
  \<comment> \<open>a completion service whose reply holds braces but no JSON\<close>
  "chatty_backend =
     stub_backend\<lparr>destination_reply := (\<lambda>prompt. Returns ''I would export {destination: csv} I think'')\<rparr>"

definition drivers :: dataframe where
  "drivers = \<lparr>columns = [ustr ''Driver Name'', ustr ''Points''], data = [[''Max'', ''25'']]\<rparr>"

definition stub_state :: "(unit, unit) agent_state" where
  "stub_state = \<lparr>frames = (\<lambda>r. drivers), conn = None, files = ()\<rparr>"

definition stub_agents :: "unit agents" where
  \<comment> \<open>agents whose transform stage gives up after its attempts\<close>
  "stub_agents =
     \<lparr>ai_assisted_extract = (\<lambda>q dir. Returns [(''a'', \<lparr>columns = [ustr ''x''], data = [[''1'']]\<rparr>)]),
      transform_stage = (\<lambda>q t. Raises (Exception ''Transformation failed after 3 attempts. Last error: boom'')),
      load_stage = (\<lambda>d q. Returns (JStr ''duckdb:result_table'', d)),
      iterative_analyze = (\<lambda>q d. Returns ()),
      generate_summary = (\<lambda>q d a. Returns ''ok'')\<rparr>"

definition silent_backend :: "(unit, unit) backend" where
  \<comment> \<open>a completion service that replies with an empty object\<close>
  "silent_backend = stub_backend\<lparr>destination_reply := (\<lambda>prompt. Returns ''{}''),
                                 json_loads := (\<lambda>text. Returns Map.empty)\<rparr>"

definition down_backend :: "(unit, unit) backend" where
  \<comment> \<open>a completion service that is down\<close>
  "down_backend =
     stub_backend\<lparr>destination_reply := (\<lambda>prompt. Raises (Exn ''ServiceUnavailable'' ''503''))\<rparr>"

definition example_globals :: "pyval \<Rightarrow> dataframe \<Rightarrow> dataframe \<Rightarrow> namespace" where
  \<comment> \<open>a namespace left by generated code, with the given value of \<open>result_df\<close>\<close>
  "example_globals result first second =
     [(''pd'', Module ''pandas''), (''dataframes'', TableDict [(''a'', first)]),
      (''result_df'', result), (''np'', Module ''numpy''),
      (''__builtins__'', Module ''builtins''), (''df'', DataFrame first),
      (''out'', DataFrame second), (''_scratch'', DataFrame first), (''n'', Object ''int'' None)]"

section \<open>Column names\<close>

lemma set_sub_each: "set (sub_each P r s) \<subseteq> insert r {c \<in> set s. \<not> P c}"
  by (auto simp: sub_each_def)

lemma set_sub_runs: "set (sub_runs P r s) \<subseteq> insert r {c \<in> set s. \<not> P c}"
proof (induction P r s rule: sub_runs.induct)
  case (1 P r)
  then show ?case by simp
next
  case (2 P r c cs)
  then show ?case using set_dropWhileD[of _ P cs] by (auto split: if_splits)
qed

lemma sub_runs_id: "\<forall>c\<in>set s. \<not> P c \<Longrightarrow> sub_runs P r s = s"
  by (induction s) auto

lemma sub_runs_starts:
  "s \<noteq> [] \<Longrightarrow> \<not> P (hd s) \<Longrightarrow> hd (sub_runs P r s) = hd s \<and> sub_runs P r s \<noteq> []"
  by (cases s) auto

lemma successively_sub_runs: "successively (\<lambda>a b. \<not> (P a \<and> P b)) (sub_runs P r s)"
proof (induction P r s rule: sub_runs.induct)
  case (1 P r)
  then show ?case by simp
next
  case (2 P r c cs)
  show ?case
  proof (cases "P c")
    case True
    let ?d = "dropWhile P cs"
    have ih: "successively (\<lambda>a b. \<not> (P a \<and> P b)) (sub_runs P r ?d)"
      using 2(1)[OF True] .
    show ?thesis
    proof (cases "?d = []")
      case True
      then have "sub_runs P r ?d = []" by (simp only: sub_runs.simps)
      with \<open>P c\<close> show ?thesis by (simp del: dropWhile_eq_Nil_conv)
    next
      case False
      then have n: "\<not> P (hd ?d)" by (rule hd_dropWhile)
      with False have "hd (sub_runs P r ?d) = hd ?d" and "sub_runs P r ?d \<noteq> []"
        using sub_runs_starts[of ?d P r] by simp_all
      with ih n \<open>P c\<close> show ?thesis
        by (simp add: successively_Cons)
    qed
  next
    case False
    with 2(2) show ?thesis by (simp add: successively_Cons)
  qed
qed

lemma sub_runs_successively_id:
  "successively (\<lambda>a b. \<not> (P a \<and> P b)) s \<Longrightarrow> \<forall>c\<in>set s. P c \<longrightarrow> c = r \<Longrightarrow> sub_runs P r s = s"
proof (induction s)
  case Nil
  then show ?case by simp
next
  case (Cons c cs)
  then have ih: "sub_runs P r cs = cs" by (auto simp: successively_Cons)
  show ?case
  proof (cases "P c")
    case True
    with Cons.prems have "cs = [] \<or> \<not> P (hd cs)" by (auto simp: successively_Cons)
    then have "dropWhile P cs = cs" by (cases cs) auto
    with True ih Cons.prems show ?thesis by simp
  next
    case False
    with ih show ?thesis by simp
  qed
qed

lemma set_strip_chars: "set (strip_chars P s) \<subseteq> set s"
  by (auto simp: strip_chars_def dest!: set_dropWhileD)

lemma successively_dropWhile: "successively R s \<Longrightarrow> successively R (dropWhile P s)"
proof -
  assume "successively R s"
  then have "successively R (takeWhile P s @ dropWhile P s)" by simp
  then show ?thesis unfolding successively_append_iff by simp
qed

lemma successively_strip_chars:
  assumes "successively R s"
  shows "successively R (strip_chars P s)"
proof -
  have "successively R (dropWhile P s)" using assms by (rule successively_dropWhile)
  then have "successively (\<lambda>x y. R y x) (rev (dropWhile P s))" by simp
  then have "successively (\<lambda>x y. R y x) (dropWhile P (rev (dropWhile P s)))"
    by (rule successively_dropWhile)
  then show ?thesis unfolding strip_chars_def by simp
qed

lemma strip_chars_edges:
  "strip_chars P s = [] \<or> (\<not> P (hd (strip_chars P s)) \<and> \<not> P (last (strip_chars P s)))"
proof (cases "strip_chars P s = []")
  case True
  then show ?thesis by simp
next
  case False
  let ?d = "dropWhile P s"
  let ?e = "dropWhile P (rev ?d)"
  from False have e: "?e \<noteq> []" by (simp add: strip_chars_def)
  then have d: "?d \<noteq> []" by (metis dropWhile.simps(1) rev.simps(1))
  have l: "\<not> P (hd ?e)" using e by (rule hd_dropWhile)
  have "last (strip_chars P s) = hd ?e" using e by (simp add: strip_chars_def last_rev)
  moreover have "hd (strip_chars P s) = last ?e" using e by (simp add: strip_chars_def hd_rev)
  moreover have "last ?e = last (rev ?d)"
    by (metis append_Nil2 e last_appendR takeWhile_dropWhile_id)
  moreover have "last (rev ?d) = hd ?d" using d by (simp add: last_rev)
  moreover have "\<not> P (hd ?d)" using d by (rule hd_dropWhile)
  ultimately show ?thesis using l by simp
qed

lemma dropWhile_rev_id: "xs \<noteq> [] \<Longrightarrow> \<not> P (last xs) \<Longrightarrow> dropWhile P (rev xs) = rev xs"
  by (induction xs rule: rev_induct) auto

lemma strip_chars_id:
  assumes "s = [] \<or> (\<not> P (hd s) \<and> \<not> P (last s))"
  shows "strip_chars P s = s"
proof (cases s)
  case Nil
  then show ?thesis by (simp add: strip_chars_def)
next
  case (Cons a as)
  with assms have "\<not> P a" and l: "\<not> P (last s)" by auto
  then have "dropWhile P s = s" using Cons by simp
  moreover have "dropWhile P (rev s) = rev s"
    using l Cons by (intro dropWhile_rev_id) auto
  ultimately show ?thesis by (simp add: strip_chars_def)
qed

lemma strip_chars_split:
  "\<exists>z. dropWhile P s = strip_chars P s @ z \<and> (\<forall>c\<in>set z. P c)"
proof -
  let ?t = "dropWhile P s"
  have "rev ?t = takeWhile P (rev ?t) @ dropWhile P (rev ?t)"
    by (rule takeWhile_dropWhile_id[symmetric])
  then have "rev (rev ?t) = rev (takeWhile P (rev ?t) @ dropWhile P (rev ?t))"
    by (rule arg_cong)
  then have "?t = strip_chars P s @ rev (takeWhile P (rev ?t))"
    by (simp only: rev_rev_ident rev_append strip_chars_def)
  moreover have "\<forall>c\<in>set (rev (takeWhile P (rev ?t))). P c"
    by (auto dest: set_takeWhileD)
  ultimately show ?thesis by blast
qed

subsection \<open>Words of a name\<close>

lemma words_of_skip: "\<not> K c \<Longrightarrow> words_of K (c # t) = words_of K t"
  by simp

lemma words_of_cons:
  "K c \<Longrightarrow> words_of K (c # t) =
     (if begins K t then (c # hd (words_of K t)) # tl (words_of K t)
      else [c] # words_of K t)"
  by (cases t) (auto simp: begins_def)

lemma words_of_seps: "\<forall>c\<in>set z. \<not> K c \<Longrightarrow> words_of K z = []"
  by (induction z) auto

lemma words_of_dropWhile: "\<forall>c. P c \<longrightarrow> \<not> K c \<Longrightarrow> words_of K (dropWhile P s) = words_of K s"
  by (induction s) auto

lemma words_of_cong:
  assumes "words_of K t = words_of K t'" and "begins K t = begins K t'"
  shows "words_of K (c # t) = words_of K (c # t')"
proof (cases "K c")
  case True
  then show ?thesis using assms by (simp only: words_of_cons)
next
  case False
  then show ?thesis using assms(1) by simp
qed

lemma words_of_append_seps: "\<forall>c\<in>set z. \<not> K c \<Longrightarrow> words_of K (y @ z) = words_of K y"
proof (induction y)
  case Nil
  then show ?case by (simp add: words_of_seps)
next
  case (Cons c y)
  then have ih: "words_of K (y @ z) = words_of K y" by simp
  have "begins K (y @ z) = begins K y"
    using Cons.prems by (cases y; cases z) (auto simp: begins_def)
  with ih have "words_of K (c # (y @ z)) = words_of K (c # y)" by (rule words_of_cong)
  then show ?case by simp
qed

lemma words_of_map:
  assumes k: "\<forall>c. K c \<longrightarrow> f c = c" and n: "\<forall>c. \<not> K c \<longrightarrow> \<not> K (f c)"
  shows "words_of K (map f s) = words_of K s"
proof (induction s)
  case Nil
  then show ?case by simp
next
  case (Cons c s)
  have b: "begins K (map f s) = begins K s"
    using k n by (cases s) (auto simp: begins_def)
  show ?case
  proof (cases "K c")
    case False
    then have "\<not> K (f c)" using n by blast
    then show ?thesis using False Cons by simp
  next
    case True
    then have fc: "f c = c" using k by blast
    have "words_of K (c # map f s) = words_of K (c # s)"
      using Cons b by (rule words_of_cong)
    then show ?thesis using fc by simp
  qed
qed

lemma words_of_sub_each:
  "\<forall>c. P c \<longrightarrow> \<not> K c \<Longrightarrow> \<not> K r \<Longrightarrow> words_of K (sub_each P r s) = words_of K s"
  unfolding sub_each_def by (rule words_of_map) auto

lemma begins_sub_runs:
  assumes "\<forall>c. P c \<longrightarrow> \<not> K c" and "\<not> K r"
  shows "begins K (sub_runs P r s) = begins K s"
  using assms by (cases s) (auto simp: begins_def)

lemma words_of_sub_runs:
  assumes p: "\<forall>c. P c \<longrightarrow> \<not> K c" and r: "\<not> K r"
  shows "words_of K (sub_runs P r s) = words_of K s"
  using p r
proof (induction P r s rule: sub_runs.induct)
  case (1 P r)
  then show ?case by simp
next
  case (2 P r c cs)
  show ?case
  proof (cases "P c")
    case True
    then have nk: "\<not> K c" using 2(3) by blast
    have "words_of K (sub_runs P r (c # cs)) = words_of K (sub_runs P r (dropWhile P cs))"
      using True 2(4) by simp
    also have "\<dots> = words_of K (dropWhile P cs)" using 2(1)[OF True 2(3) 2(4)] .
    also have "\<dots> = words_of K cs" using 2(3) by (rule words_of_dropWhile)
    also have "\<dots> = words_of K (c # cs)" using nk by simp
    finally show ?thesis .
  next
    case False
    have ih: "words_of K (sub_runs P r cs) = words_of K cs" using 2(2)[OF False 2(3) 2(4)] .
    have "begins K (sub_runs P r cs) = begins K cs" using 2(3) 2(4) by (rule begins_sub_runs)
    with ih have "words_of K (c # sub_runs P r cs) = words_of K (c # cs)" by (rule words_of_cong)
    then show ?thesis using False by simp
  qed
qed

lemma words_of_strip_chars:
  assumes p: "\<forall>c. P c \<longrightarrow> \<not> K c"
  shows "words_of K (strip_chars P s) = words_of K s"
proof -
  from strip_chars_split[of P s]
  obtain z where z: "dropWhile P s = strip_chars P s @ z" and a: "\<forall>c\<in>set z. P c"
    by (elim exE conjE)
  have "\<forall>c\<in>set z. \<not> K c" using a p by blast
  then have "words_of K (strip_chars P s @ z) = words_of K (strip_chars P s)"
    by (rule words_of_append_seps)
  then have "words_of K (strip_chars P s) = words_of K (dropWhile P s)"
    by (simp only: z)
  also have "\<dots> = words_of K s" using p by (rule words_of_dropWhile)
  finally show ?thesis .
qed

lemma str_join_cons: "str_join sep ((c # w) # ws) = c # str_join sep (w # ws)"
  by (cases ws) auto

lemma str_join_Nil_iff: "str_join [u] ws = [] \<longleftrightarrow> ws = [] \<or> ws = [[]]"
  by (induction "[u]" ws rule: str_join.induct) auto

lemma join_words_of:
  assumes "\<forall>c\<in>set d. K c \<or> c = u" and "\<not> K u"
    and "successively (\<lambda>a b. \<not> (a = u \<and> b = u)) d"
    and "d = [] \<or> last d \<noteq> u"
  shows "str_join [u] (words_of K d) = dropWhile (\<lambda>c. c = u) d"
  using assms
proof (induction d)
  case Nil
  then show ?case by simp
next
  case (Cons c d)
  have all: "\<forall>c\<in>set d. K c \<or> c = u" using Cons.prems by simp
  have suc: "successively (\<lambda>a b. \<not> (a = u \<and> b = u)) d"
    using Cons.prems by (auto simp: successively_Cons)
  have lst: "d = [] \<or> last d \<noteq> u" using Cons.prems by auto
  have ih: "str_join [u] (words_of K d) = dropWhile (\<lambda>c. c = u) d"
    using Cons.IH[OF all Cons.prems(2) suc lst] .
  show ?case
  proof (cases "K c")
    case False
    then have cu: "c = u" using Cons.prems by auto
    then show ?thesis using ih False by simp
  next
    case True
    then have cu: "c \<noteq> u" using Cons.prems(2) by auto
    show ?thesis
    proof (cases "begins K d")
      case True
      then obtain e d' where d: "d = e # d'" and e: "K e" by (cases d) (auto simp: begins_def)
      then have eu: "e \<noteq> u" using Cons.prems(2) by auto
      have w: "words_of K d = (e # takeWhile K d') # words_of K (dropWhile K d')" using d e by simp
      have "words_of K (c # d) = (c # hd (words_of K d)) # tl (words_of K d)"
        using \<open>K c\<close> True by (simp only: words_of_cons if_True)
      then have "str_join [u] (words_of K (c # d)) = c # str_join [u] (words_of K d)"
        using w by (simp only: list.sel str_join_cons)
      then show ?thesis using ih cu d eu by simp
    next
      case False
      have wc: "words_of K (c # d) = [c] # words_of K d"
        using \<open>K c\<close> False by (simp only: words_of_cons if_False)
      show ?thesis
      proof (cases d)
        case Nil
        then show ?thesis using wc cu by simp
      next
        case (Cons e d')
        then have "\<not> K e" using False by (simp add: begins_def)
        then have e: "e = u" using all Cons by auto
        have d': "d' \<noteq> []" using lst Cons e by auto
        have "hd d' \<noteq> u" using suc Cons e d' by (cases d') (auto simp: successively_Cons)
        then have dd: "dropWhile (\<lambda>c. c = u) d = d'" using Cons e d' by (cases d') auto
        then have j: "str_join [u] (words_of K d) = d'" using ih by simp
        then have "words_of K d \<noteq> []" using d' by auto
        then obtain w ws where ww: "words_of K d = w # ws" by (cases "words_of K d") auto
        have "str_join [u] ([c] # w # ws) = c # u # str_join [u] (w # ws)" by simp
        then show ?thesis using wc ww j cu Cons e by simp
      qed
    qed
  qed
qed

subsection \<open>The sanitized name\<close>

lemma kept_not_special: "is_special T c \<Longrightarrow> \<not> kept T c"
  by (simp add: is_special_def kept_def)

lemma kept_not_space: "tables_ok T \<Longrightarrow> uc_space T c \<Longrightarrow> \<not> kept T c"
  by (auto simp: tables_ok_def kept_def)

lemma kept_not_underscore: "is_underscore c \<Longrightarrow> \<not> kept T c"
  by (simp add: kept_def)

lemma sanitize_words:
  assumes "tables_ok T"
  shows "words_of (kept T) (sanitize_column_name T col) = words_of (kept T) (uc_lower T col)"
proof -
  have u: "\<not> kept T underscore" by (simp add: kept_def is_underscore_def)
  have 1: "\<forall>c. is_special T c \<longrightarrow> \<not> kept T c" using kept_not_special by blast
  have 2: "\<forall>c. uc_space T c \<longrightarrow> \<not> kept T c" using kept_not_space[OF assms] by blast
  have 3: "\<forall>c. is_underscore c \<longrightarrow> \<not> kept T c" using kept_not_underscore by blast
  show ?thesis
    unfolding sanitize_column_name_def Let_def
    by (simp only: words_of_strip_chars[OF 3] words_of_sub_runs[OF 3 u] words_of_sub_runs[OF 2 u]
        words_of_sub_each[OF 1 u])
qed

lemma sanitize_chars:
  "set (sanitize_column_name T col) \<subseteq> insert underscore (set (uc_lower T col))"
proof -
  let ?a = "sub_each (is_special T) underscore (uc_lower T col)"
  let ?b = "sub_runs (uc_space T) underscore ?a"
  let ?c = "sub_runs is_underscore underscore ?b"
  have a: "set ?a \<subseteq> insert underscore (set (uc_lower T col))"
    using set_sub_each[of "is_special T" underscore "uc_lower T col"] by auto
  have b: "set ?b \<subseteq> insert underscore (set ?a)"
    using set_sub_runs[of "uc_space T" underscore ?a] by auto
  have c: "set ?c \<subseteq> insert underscore (set ?b)"
    using set_sub_runs[of is_underscore underscore ?b] by auto
  have "set (strip_chars is_underscore ?c) \<subseteq> set ?c" by (rule set_strip_chars)
  with a b c show ?thesis unfolding sanitize_column_name_def Let_def by blast
qed

lemma sanitize_all_word:
  assumes "tables_ok T"
  shows "list_all (uc_word T) (sanitize_column_name T col)"
proof -
  let ?a = "sub_each (is_special T) underscore (uc_lower T col)"
  let ?b = "sub_runs (uc_space T) underscore ?a"
  let ?c = "sub_runs is_underscore underscore ?b"
  have u: "uc_word T underscore" using assms by (simp add: tables_ok_def)
  have a: "\<forall>c\<in>set ?a. uc_word T c \<or> uc_space T c" using u by (auto simp: sub_each_def is_special_def)
  have b: "\<forall>c\<in>set ?b. uc_word T c" using set_sub_runs[of "uc_space T" underscore ?a] a u by auto
  have c: "\<forall>c\<in>set ?c. uc_word T c" using set_sub_runs[of is_underscore underscore ?b] b u by auto
  have "\<forall>c\<in>set (strip_chars is_underscore ?c). uc_word T c"
    using set_strip_chars[of is_underscore ?c] c by auto
  then show ?thesis by (simp add: sanitize_column_name_def Let_def list_all_iff)
qed

lemma sanitize_no_double:
  "successively (\<lambda>a b. \<not> (is_underscore a \<and> is_underscore b)) (sanitize_column_name T col)"
  unfolding sanitize_column_name_def Let_def
  by (intro successively_strip_chars successively_sub_runs)

lemma sanitize_edges:
  "sanitize_column_name T col = [] \<or>
   (\<not> is_underscore (hd (sanitize_column_name T col))
    \<and> \<not> is_underscore (last (sanitize_column_name T col)))"
  unfolding sanitize_column_name_def Let_def by (rule strip_chars_edges)

lemma sanitize_lower:
  assumes "tables_ok T"
  shows "uc_lower T (sanitize_column_name T col) = sanitize_column_name T col"
  using assms sanitize_chars[of T col] unfolding tables_ok_def by blast

lemma sanitize_lower_each:
  assumes "tables_ok T"
  shows "list_all (\<lambda>c. uc_lower T [c] = [c]) (sanitize_column_name T col)"
proof -
  have "uc_lower T [c] = [c]" if "c \<in> set (sanitize_column_name T col)" for c
  proof -
    have "set [c] \<subseteq> insert underscore (set (uc_lower T col))"
      using that sanitize_chars[of T col] by auto
    then show ?thesis using assms unfolding tables_ok_def by blast
  qed
  then show ?thesis by (simp add: list_all_iff)
qed

lemma sanitize_fixpoint:
  assumes ok: "tables_ok T"
    and l: "uc_lower T s = s" and w: "list_all (uc_word T) s"
    and d: "successively (\<lambda>a b. \<not> (is_underscore a \<and> is_underscore b)) s"
    and e: "s = [] \<or> (\<not> is_underscore (hd s) \<and> \<not> is_underscore (last s))"
  shows "sanitize_column_name T s = s"
proof -
  have 2: "sub_each (is_special T) underscore s = s"
    using w by (auto simp: sub_each_def is_special_def list_all_iff intro: map_idI)
  have 3: "sub_runs (uc_space T) underscore s = s"
    using w ok by (intro sub_runs_id) (auto simp: list_all_iff tables_ok_def)
  have 4: "sub_runs is_underscore underscore s = s"
    using d by (intro sub_runs_successively_id) (auto simp: is_underscore_def)
  have 5: "strip_chars is_underscore s = s" using e by (rule strip_chars_id)
  show ?thesis by (simp add: sanitize_column_name_def Let_def l 2 3 4 5)
qed

lemma sanitize_join:
  assumes "tables_ok T"
  shows "sanitize_column_name T col = str_join [underscore] (words_of (kept T) (uc_lower T col))"
proof -
  let ?d = "sanitize_column_name T col"
  have w: "\<forall>c\<in>set ?d. kept T c \<or> c = underscore"
    using sanitize_all_word[OF assms, of col] by (auto simp: list_all_iff kept_def is_underscore_def)
  have u: "\<not> kept T underscore" by (simp add: kept_def is_underscore_def)
  have s: "successively (\<lambda>a b. \<not> (a = underscore \<and> b = underscore)) ?d"
    using sanitize_no_double[of T col] by (simp add: is_underscore_def)
  have e: "?d = [] \<or> (hd ?d \<noteq> underscore \<and> last ?d \<noteq> underscore)"
    using sanitize_edges[of T col] by (simp add: is_underscore_def)
  then have l: "?d = [] \<or> last ?d \<noteq> underscore" by blast
  have "str_join [underscore] (words_of (kept T) ?d) = dropWhile (\<lambda>c. c = underscore) ?d"
    using w u s l by (rule join_words_of)
  moreover have "dropWhile (\<lambda>c. c = underscore) ?d = ?d" using e by (cases ?d) auto
  ultimately show ?thesis using sanitize_words[OF assms, of col] by simp
qed

text \<open>
  Claim C9, amended. The character classes \<open>\w\<close> and \<open>\s\<close> and \<open>str.lower\<close> are those of
  the Unicode tables \<open>T\<close> of the interpreter. Of the tables only three facts are used, each
  of which holds of CPython's: the underscore is a word character, no word character is
  white space, and a string made of underscores and of characters that \<open>lower\<close> produces is
  left as it is by \<open>lower\<close>. Then, for every column name, the result

  \<^item> is the list of the words of the lower-cased name joined by single underscores, a word
    being a maximal run of word characters other than the underscore: every character
    that is not a word character, like every underscore, is dropped at the two ends and
    stands as one underscore for the whole run between two words;
  \<^item> is lower-cased: \<open>lower\<close> leaves it, and each of its characters, unchanged (it may
    still hold an upper-case letter that has no lower-case form);
  \<^item> consists of word characters only, has no two underscores in a row, and neither
    begins nor ends with an underscore;
  \<^item> is returned unchanged when sanitized again.

  A column label that is not a \<open>str\<close> is first rendered by \<open>str()\<close>; the statement starts
  from the rendered name.
\<close>

theorem sanitize_column_name_spec:
  assumes "tables_ok T"
  shows "sanitize_column_name T col = str_join [underscore] (words_of (kept T) (uc_lower T col))
       \<and> uc_lower T (sanitize_column_name T col) = sanitize_column_name T col
       \<and> list_all (\<lambda>c. uc_lower T [c] = [c]) (sanitize_column_name T col)
       \<and> list_all (uc_word T) (sanitize_column_name T col)
       \<and> successively (\<lambda>a b. \<not> (is_underscore a \<and> is_underscore b)) (sanitize_column_name T col)
       \<and> \<not> prefix [underscore] (sanitize_column_name T col)
       \<and> \<not> suffix [underscore] (sanitize_column_name T col)
       \<and> sanitize_column_name T (sanitize_column_name T col) = sanitize_column_name T col"
proof -
  let ?s = "sanitize_column_name T col"
  have e: "?s = [] \<or> (\<not> is_underscore (hd ?s) \<and> \<not> is_underscore (last ?s))"
    by (rule sanitize_edges)
  have p: "\<not> prefix [underscore] ?s" using e by (cases ?s) (auto simp: is_underscore_def)
  have q: "\<not> suffix [underscore] ?s" using e by (auto simp: is_underscore_def suffix_def)
  have i: "sanitize_column_name T ?s = ?s"
    using assms sanitize_lower[OF assms] sanitize_all_word[OF assms] sanitize_no_double e
    by (rule sanitize_fixpoint)
  show ?thesis
    using sanitize_join[OF assms, of col] sanitize_lower[OF assms, of col]
      sanitize_lower_each[OF assms, of col] sanitize_all_word[OF assms, of col]
      sanitize_no_double[of T col] p q i
    by (intro conjI)
qed

lemma excerpt_lower_idem: "excerpt_lower (excerpt_lower c) = excerpt_lower c"
  by (simp add: excerpt_lower_def)

lemma tables_ok_excerpt: "tables_ok excerpt"
proof -
  have "map excerpt_lower t = t" if "set t \<subseteq> insert underscore (set (map excerpt_lower s))" for s t
  proof (rule map_idI)
    fix x assume "x \<in> set t"
    then have "x = underscore \<or> (\<exists>c. x = excerpt_lower c)" using that by auto
    then show "excerpt_lower x = x"
    proof
      assume "x = underscore"
      then show ?thesis by (simp add: underscore_def excerpt_lower_def)
    next
      assume "\<exists>c. x = excerpt_lower c"
      then obtain c where "x = excerpt_lower c" ..
      then show ?thesis by (simp only: excerpt_lower_idem)
    qed
  qed
  then show ?thesis
    by (auto simp: tables_ok_def excerpt_def underscore_def)
qed

theorem sanitize_column_name_spec_witness:
  "sanitize_column_name excerpt (ustr ''  CAF'' @ [0xC9] @ ustr ''  Bar (new)!! __x '')
     = ustr ''caf'' @ [0xE9] @ ustr ''_bar_new_x''
   \<and> words_of (kept excerpt) (uc_lower excerpt (ustr ''  CAF'' @ [0xC9] @ ustr ''  Bar (new)!! __x ''))
     = [ustr ''caf'' @ [0xE9], ustr ''bar'', ustr ''new'', ustr ''x'']"
proof -
  have w: "words_of (kept excerpt) (uc_lower excerpt (ustr ''  CAF'' @ [0xC9] @ ustr ''  Bar (new)!! __x ''))
     = [ustr ''caf'' @ [0xE9], ustr ''bar'', ustr ''new'', ustr ''x'']"
    by code_simp
  have j: "str_join [underscore] [ustr ''caf'' @ [0xE9], ustr ''bar'', ustr ''new'', ustr ''x'']
     = ustr ''caf'' @ [0xE9] @ ustr ''_bar_new_x''"
    by code_simp
  from sanitize_column_name_spec[OF tables_ok_excerpt,
      of "ustr ''  CAF'' @ [0xC9] @ ustr ''  Bar (new)!! __x ''", THEN conjunct1]
  show ?thesis using w j by simp
qed

text \<open>
  Claim C9, as stated, fails in its first part. \<open>str.lower\<close> leaves a letter that has no
  lower-case form as it is: U+03D2 (GREEK UPSILON WITH HOOK SYMBOL) is an upper-case letter
  (\<open>isupper()\<close> holds of it), \<open>lower()\<close> returns the same letter, and it is a word
  character, so the column name made of this one letter is returned unchanged and is not
  lowercase.
\<close>

theorem sanitize_column_name_keeps_upper:
  "sanitize_column_name excerpt [0x3D2] = [0x3D2] \<and> uc_upper excerpt 0x3D2
   \<and> list_ex (uc_upper excerpt) (sanitize_column_name excerpt [0x3D2])"
  by code_simp

section \<open>Code fences\<close>

lemma linebreak_CR: "is_linebreak (CHR 0x0D)"
  by (simp add: is_linebreak_def)

lemma linebreak_LF: "is_linebreak (CHR 0x0A)"
  by (simp add: is_linebreak_def)

lemma splitlines_from_plain:
  "\<forall>c\<in>set s. \<not> is_linebreak c \<Longrightarrow>
   splitlines_from cur s = (if cur @ s = [] then [] else [cur @ s])"
proof (induction cur s rule: splitlines_from.induct)
  case (1 cur)
  then show ?case by simp
next
  case (2 cur c)
  then show ?case by simp
next
  case (3 cur c d cs)
  then have "c \<noteq> CHR 0x0D" using linebreak_CR by auto
  with 3 show ?case by simp
qed

lemma splitlines_from_line:
  "\<forall>c\<in>set l. \<not> is_linebreak c \<Longrightarrow>
   splitlines_from cur (l @ CHR 0x0A # rest) = (cur @ l) # splitlines_from [] rest"
proof (induction l arbitrary: cur)
  case Nil
  show ?case using linebreak_LF by (cases rest) simp_all
next
  case (Cons a l)
  then have a: "\<not> is_linebreak a" "a \<noteq> CHR 0x0D" using linebreak_CR by auto
  obtain d ds where e: "l @ CHR 0x0A # rest = d # ds" by (cases l) auto
  have "splitlines_from cur ((a # l) @ CHR 0x0A # rest)
      = splitlines_from (cur @ [a]) (l @ CHR 0x0A # rest)"
    using a e by simp
  also have "\<dots> = ((cur @ [a]) @ l) # splitlines_from [] rest" using Cons by simp
  finally show ?case by simp
qed

lemma splitlines_join:
  "\<forall>l\<in>set ls. \<forall>c\<in>set l. \<not> is_linebreak c \<Longrightarrow>
   splitlines (str_join ''\<newline>'' ls) = drop_last_empty ls"
proof (induction "''\<newline>''" ls rule: str_join.induct)
  case 1
  then show ?case by (simp add: splitlines_def drop_last_empty_def)
next
  case (2 l)
  then show ?case by (simp add: splitlines_def drop_last_empty_def splitlines_from_plain)
next
  case (3 l m ls)
  then have ih: "splitlines (str_join ''\<newline>'' (m # ls)) = drop_last_empty (m # ls)" by simp
  have "splitlines (str_join ''\<newline>'' (l # m # ls)) = l # splitlines (str_join ''\<newline>'' (m # ls))"
    using 3(2) splitlines_from_line[of l "[]" "str_join ''\<newline>'' (m # ls)"]
    by (simp add: splitlines_def)
  then show ?case using ih by (simp add: drop_last_empty_def)
qed

lemma splitlines_from_no_linebreak:
  "\<forall>c\<in>set cur. \<not> is_linebreak c \<Longrightarrow> l \<in> set (splitlines_from cur s) \<Longrightarrow> c \<in> set l
   \<Longrightarrow> \<not> is_linebreak c"
  by (induction cur s arbitrary: l rule: splitlines_from.induct) (auto split: if_splits)

lemma splitlines_no_linebreak: "l \<in> set (splitlines s) \<Longrightarrow> c \<in> set l \<Longrightarrow> \<not> is_linebreak c"
  unfolding splitlines_def using splitlines_from_no_linebreak[of "[]"] by simp

lemma str_join_snoc: "ls \<noteq> [] \<Longrightarrow> str_join sep (ls @ [l]) = str_join sep ls @ sep @ l"
  by (induction sep ls rule: str_join.induct) auto

lemma clean_code_fences_lines:
  "splitlines (clean_code_fences x) = drop_last_empty (remaining_lines x)"
  unfolding clean_code_fences_def Let_def remaining_lines_def
  by (rule splitlines_join) (auto dest: splitlines_no_linebreak)

lemma filter_drop_last_empty:
  "filter P (drop_last_empty (filter P ls)) = drop_last_empty (filter P ls)"
proof -
  have "\<forall>l\<in>set (drop_last_empty (filter P ls)). P l"
    by (auto simp: drop_last_empty_def dest: in_set_butlastD)
  then show ?thesis by (simp add: filter_id_conv)
qed

lemma clean_twice:
  "clean_code_fences (clean_code_fences x) = str_join ''\<newline>'' (drop_last_empty (remaining_lines x))"
proof -
  have "clean_code_fences (clean_code_fences x)
      = str_join ''\<newline>'' (filter (\<lambda>line. \<not> is_fence line) (splitlines (clean_code_fences x)))"
    by (simp add: clean_code_fences_def[of "clean_code_fences x"] Let_def)
  also have "\<dots> = str_join ''\<newline>'' (drop_last_empty (remaining_lines x))"
    unfolding clean_code_fences_lines remaining_lines_def by (simp only: filter_drop_last_empty)
  finally show ?thesis .
qed

lemma clean_idem_iff:
  "clean_code_fences (clean_code_fences x) = clean_code_fences x \<longleftrightarrow>
   \<not> (2 \<le> length (remaining_lines x) \<and> last (remaining_lines x) = [])"
proof -
  let ?L = "remaining_lines x"
  have c: "clean_code_fences x = str_join ''\<newline>'' ?L"
    by (simp add: clean_code_fences_def remaining_lines_def)
  have t: "clean_code_fences (clean_code_fences x) = str_join ''\<newline>'' (drop_last_empty ?L)"
    by (rule clean_twice)
  show ?thesis
  proof (cases "?L \<noteq> [] \<and> last ?L = []")
    case False
    then have "drop_last_empty ?L = ?L" by (auto simp: drop_last_empty_def)
    then have "clean_code_fences (clean_code_fences x) = clean_code_fences x"
      using t c by metis
    moreover have "\<not> (2 \<le> length ?L \<and> last ?L = [])" using False by auto
    ultimately show ?thesis by blast
  next
    case True
    then have d: "drop_last_empty ?L = butlast ?L" by (simp add: drop_last_empty_def)
    from True have L: "?L = butlast ?L @ [[]]" by (metis append_butlast_last_id)
    show ?thesis
    proof (cases "butlast ?L = []")
      case True
      with L have one: "?L = [[]]" by simp
      then have "str_join ''\<newline>'' (drop_last_empty ?L) = str_join ''\<newline>'' ?L"
        by (simp add: drop_last_empty_def)
      then have "clean_code_fences (clean_code_fences x) = clean_code_fences x"
        using t c by metis
      moreover have "\<not> 2 \<le> length ?L" using one by simp
      ultimately show ?thesis by blast
    next
      case False
      then have "str_join ''\<newline>'' (butlast ?L @ [[]]) = str_join ''\<newline>'' (butlast ?L) @ ''\<newline>''"
        by (simp add: str_join_snoc)
      then have "str_join ''\<newline>'' ?L \<noteq> str_join ''\<newline>'' (butlast ?L)" using L by simp
      then have "clean_code_fences (clean_code_fences x) \<noteq> clean_code_fences x"
        using t c d by metis
      moreover have "length ?L = Suc (length (butlast ?L))" using L by (metis length_append_singleton)
      then have "2 \<le> length ?L" using False by (cases "butlast ?L") auto
      ultimately show ?thesis using True by blast
    qed
  qed
qed

text \<open>
  Claim C5, as stated, fails in its last part: \<open>clean_code_fences\<close> is not idempotent.
  The text \<open>a\<close> followed by two line feeds has the lines \<open>a\<close> and the empty line; they
  are joined to \<open>a\<close> and one line feed, which has the single line \<open>a\<close>.
\<close>

theorem clean_code_fences_not_idempotent:
  "clean_code_fences (clean_code_fences ''a\<newline>\<newline>'') \<noteq> clean_code_fences ''a\<newline>\<newline>''"
  by code_simp

text \<open>
  Claim C5, amended. For every code text, \<open>clean_code_fences\<close> returns the lines that
  are not fence markers (trimmed, neither the bare nor the \<open>python\<close> marker), in their
  order and with their content, joined by line feeds; read back as lines, the result is
  these lines, less an empty last line. Cleaning twice gives the same as cleaning once
  exactly when the remaining lines do not end with an empty line that follows another
  line.
\<close>

theorem clean_code_fences_spec:
  "clean_code_fences x = str_join ''\<newline>'' (remaining_lines x) \<and>
   splitlines (clean_code_fences x) = drop_last_empty (remaining_lines x) \<and>
   (clean_code_fences (clean_code_fences x) = clean_code_fences x \<longleftrightarrow>
      \<not> (2 \<le> length (remaining_lines x) \<and> last (remaining_lines x) = []))"
  using clean_code_fences_lines clean_idem_iff
  by (simp add: clean_code_fences_def remaining_lines_def)

theorem clean_code_fences_spec_witness:
  "remaining_lines ''```python\<newline>x = 1\<newline>  ``` \<newline>'' = [''x = 1''] \<and>
   clean_code_fences ''```python\<newline>x = 1\<newline>  ``` \<newline>'' = ''x = 1'' \<and>
   clean_code_fences (clean_code_fences ''```python\<newline>x = 1\<newline>  ``` \<newline>'') = ''x = 1''"
proof -
  have r: "remaining_lines ''```python\<newline>x = 1\<newline>  ``` \<newline>'' = [''x = 1'']"
    by code_simp
  have c: "clean_code_fences ''```python\<newline>x = 1\<newline>  ``` \<newline>'' = ''x = 1''"
    by code_simp
  have d: "clean_code_fences ''x = 1'' = ''x = 1''"
    by code_simp
  show ?thesis
    using clean_code_fences_spec[of "''```python\<newline>x = 1\<newline>  ``` \<newline>''"] r c d by simp
qed

section \<open>The result binding\<close>

lemma scan_lines_None: "scan_lines lines n = None \<longleftrightarrow> (\<forall>i<n. assignment_target (lines ! i) = None)"
  by (induction n) (auto simp: less_Suc_eq split: option.splits)

lemma scan_lines_Some:
  "scan_lines lines n = Some v \<longleftrightarrow>
   (\<exists>i<n. assignment_target (lines ! i) = Some v \<and> (\<forall>j. i < j \<and> j < n \<longrightarrow> assignment_target (lines ! j) = None))"
proof (induction n)
  case 0
  then show ?case by simp
next
  case (Suc n)
  show ?case
  proof (cases "assignment_target (lines ! n)")
    case None
    then have "scan_lines lines (Suc n) = Some v \<longleftrightarrow> scan_lines lines n = Some v" by simp
    also have "\<dots> \<longleftrightarrow> (\<exists>i<n. assignment_target (lines ! i) = Some v \<and> (\<forall>j. i < j \<and> j < n \<longrightarrow> assignment_target (lines ! j) = None))"
      by (rule Suc.IH)
    also have "\<dots> \<longleftrightarrow> (\<exists>i<Suc n. assignment_target (lines ! i) = Some v \<and> (\<forall>j. i < j \<and> j < Suc n \<longrightarrow> assignment_target (lines ! j) = None))"
      using None by (metis less_Suc_eq option.distinct(1))
    finally show ?thesis .
  next
    case (Some w)
    then have "scan_lines lines (Suc n) = Some v \<longleftrightarrow> w = v" by simp
    also have "\<dots> \<longleftrightarrow> (\<exists>i<Suc n. assignment_target (lines ! i) = Some v \<and> (\<forall>j. i < j \<and> j < Suc n \<longrightarrow> assignment_target (lines ! j) = None))"
      using Some by (metis less_Suc_eq lessI option.distinct(1) option.inject not_less_eq)
    finally show ?thesis .
  qed
qed

lemma split_on_sep: "sep \<notin> set l \<Longrightarrow> split_on sep (l @ sep # rest) = l # split_on sep rest"
  by (induction l) auto

lemma split_on_nonempty: "split_on sep s \<noteq> []"
  by (induction s) (auto split: list.splits)

lemma split_on_append: "split_on sep (s @ sep # rest) = split_on sep s @ split_on sep rest"
  by (induction s) (auto split: list.splits simp: split_on_nonempty)

lemma assignment_target_identifier:
  "assignment_target l = Some v \<Longrightarrow> v \<noteq> [] \<and> isidentifier v"
  by (auto simp: assignment_target_def Let_def split: if_splits)

lemma identifier_no_LF: "isidentifier v \<Longrightarrow> CHR 0x0A \<notin> set v"
  by (cases v) (auto simp: isidentifier_def list_all_iff ascii_letter_def ascii_digit_def)

lemma split_on_assign_result:
  assumes "isidentifier v"
  shows "split_on (CHR 0x0A) (code @ assign_result v)
       = split_on (CHR 0x0A) code @ [[], ''# Assign result'', ''result_df = '' @ v, []]"
proof -
  have v: "CHR 0x0A \<notin> set v" using assms by (rule identifier_no_LF)
  let ?r3 = "(''result_df = '' @ v) @ CHR 0x0A # []"
  let ?r2 = "''# Assign result'' @ CHR 0x0A # ?r3"
  have a: "assign_result v = CHR 0x0A # CHR 0x0A # ?r2" by (simp add: assign_result_def)
  have 3: "split_on (CHR 0x0A) ?r3 = [''result_df = '' @ v, []]"
    using v by (subst split_on_sep) auto
  have 2: "split_on (CHR 0x0A) ?r2 = ''# Assign result'' # split_on (CHR 0x0A) ?r3"
    by (subst split_on_sep) auto
  have "split_on (CHR 0x0A) (code @ CHR 0x0A # CHR 0x0A # ?r2)
      = split_on (CHR 0x0A) code @ split_on (CHR 0x0A) (CHR 0x0A # ?r2)"
    by (rule split_on_append)
  also have "split_on (CHR 0x0A) (CHR 0x0A # ?r2) = [] # split_on (CHR 0x0A) ?r2" by simp
  finally show ?thesis unfolding a 2 3 by simp
qed

text \<open>
  Claim C4, amended. For every code text in which the text \<open>result_df\<close> does not
  occur, \<open>generate_transformation_code\<close> appends an empty line, a comment line and
  exactly one assignment line \<open>result_df = v\<close>, where \<open>v\<close> is the name before the
  first equals sign of the last line that has the shape \<open>name = ...\<close>; when no line
  has this shape the code is unchanged. When the text \<open>result_df\<close> occurs anywhere in
  the code, assigned or not, the code is unchanged.
\<close>

theorem add_result_df_spec:
  "(\<not> contains ''result_df'' code \<longrightarrow>
      (i < length (split_on (CHR 0x0A) code)
             \<and> assignment_target (split_on (CHR 0x0A) code ! i) = Some v
             \<and> (\<forall>j. i < j \<and> j < length (split_on (CHR 0x0A) code)
                    \<longrightarrow> assignment_target (split_on (CHR 0x0A) code ! j) = None)
         \<longrightarrow> add_result_df code = code @ ''\<newline>\<newline># Assign result\<newline>result_df = '' @ v @ ''\<newline>''
           \<and> split_on (CHR 0x0A) (add_result_df code)
             = split_on (CHR 0x0A) code @ [[], ''# Assign result'', ''result_df = '' @ v, []])
    \<and> ((\<forall>i < length (split_on (CHR 0x0A) code). assignment_target (split_on (CHR 0x0A) code ! i) = None)
         \<longrightarrow> add_result_df code = code))
   \<and> (contains ''result_df'' code \<longrightarrow> add_result_df code = code)"
proof (intro conjI impI)
  let ?ls = "split_on (CHR 0x0A) code"
  assume n: "\<not> contains ''result_df'' code"
    and h: "i < length ?ls \<and> assignment_target (?ls ! i) = Some v
          \<and> (\<forall>j. i < j \<and> j < length ?ls \<longrightarrow> assignment_target (?ls ! j) = None)"
  then have "scan_lines ?ls (length ?ls) = Some v" unfolding scan_lines_Some by blast
  with n have e: "add_result_df code = code @ assign_result v" by (simp add: add_result_df_def)
  then show "add_result_df code = code @ ''\<newline>\<newline># Assign result\<newline>result_df = '' @ v @ ''\<newline>''"
    by (simp add: assign_result_def)
  have "isidentifier v" using h assignment_target_identifier by blast
  then show "split_on (CHR 0x0A) (add_result_df code)
             = ?ls @ [[], ''# Assign result'', ''result_df = '' @ v, []]"
    unfolding e by (rule split_on_assign_result)
next
  let ?ls = "split_on (CHR 0x0A) code"
  assume "\<not> contains ''result_df'' code"
    and "\<forall>i < length ?ls. assignment_target (?ls ! i) = None"
  then have "scan_lines ?ls (length ?ls) = None" unfolding scan_lines_None by blast
  then show "add_result_df code = code" by (simp add: add_result_df_def)
next
  assume "contains ''result_df'' code"
  then show "add_result_df code = code" by (simp add: add_result_df_def)
qed

lemma ex_lines: "split_on (CHR 0x0A) example_code = [''df = dataframes['a']'', ''total = df.sum()'', ''print(total)'']"
  by code_simp
lemma ex2: "\<not> contains ''result_df'' example_code" by code_simp
lemma ex3: "assignment_target ''total = df.sum()'' = Some ''total''" by code_simp
lemma ex4: "assignment_target ''print(total)'' = None" by code_simp

theorem add_result_df_spec_witness:
  "add_result_df example_code = example_code @ ''\<newline>\<newline># Assign result\<newline>result_df = total\<newline>''
   \<and> add_result_df ''print(1)'' = ''print(1)''
   \<and> add_result_df commented_code = commented_code"
proof -
  let ?ls = "split_on (CHR 0x0A) example_code"
  have later: "\<forall>j. 1 < j \<and> j < length ?ls \<longrightarrow> assignment_target (?ls ! j) = None"
  proof (intro allI impI)
    fix j :: nat
    assume "1 < j \<and> j < length ?ls"
    then have "j = 2" unfolding ex_lines by simp
    then show "assignment_target (?ls ! j) = None" unfolding ex_lines using ex4 by simp
  qed
  have len: "1 < length ?ls" unfolding ex_lines by simp
  have tgt: "assignment_target (?ls ! 1) = Some ''total''" unfolding ex_lines using ex3 by simp
  have prem: "1 < length ?ls \<and> assignment_target (?ls ! 1) = Some ''total''
      \<and> (\<forall>j. 1 < j \<and> j < length ?ls \<longrightarrow> assignment_target (?ls ! j) = None)"
    using len tgt later by (intro conjI)
  have "add_result_df example_code = example_code @ ''\<newline>\<newline># Assign result\<newline>result_df = '' @ ''total'' @ ''\<newline>''"
    using add_result_df_spec[of example_code 1 "''total''", THEN conjunct1, THEN mp, OF ex2,
        THEN conjunct1, THEN mp, OF prem, THEN conjunct1] .
  then have 1: "add_result_df example_code = example_code @ ''\<newline>\<newline># Assign result\<newline>result_df = total\<newline>''"
    by simp
  have p1: "\<not> contains ''result_df'' ''print(1)''" by code_simp
  have p2: "split_on (CHR 0x0A) ''print(1)'' = [''print(1)'']" by code_simp
  have p3: "assignment_target ''print(1)'' = None" by code_simp
  have none: "\<forall>i < length (split_on (CHR 0x0A) ''print(1)''). assignment_target (split_on (CHR 0x0A) ''print(1)'' ! i) = None"
    unfolding p2 using p3 by simp
  have 2: "add_result_df ''print(1)'' = ''print(1)''"
    using add_result_df_spec[of "''print(1)''" 0 "[]", THEN conjunct1, THEN mp, OF p1,
        THEN conjunct2, THEN mp, OF none] .
  have c: "contains ''result_df'' commented_code" by code_simp
  have 3: "add_result_df commented_code = commented_code"
    using add_result_df_spec[of commented_code 0 "[]", THEN conjunct2, THEN mp, OF c] .
  from 1 2 3 show ?thesis by (intro conjI)
qed

text \<open>
  Claim C4, as stated, fails: a code text can lack an assignment to \<open>result_df\<close> and
  still contain the text \<open>result_df\<close>. Then nothing is appended, although the scan
  would find an assignment line.
\<close>

theorem add_result_df_substring_guard:
  "\<not> binds ''result_df'' commented_code
   \<and> scan_lines (split_on (CHR 0x0A) commented_code) (length (split_on (CHR 0x0A) commented_code))
       = Some ''total''
   \<and> add_result_df commented_code = commented_code"
  by code_simp

section \<open>The retry loop\<close>

lemma fix_request_feedback: "fix_request q e = q @ feedback e"
  by (simp add: fix_request_def feedback_def)

lemma map_upt_Suc_shift: "map f [0..<Suc n] = f 0 # map (\<lambda>i. f (Suc i)) [0..<n]"
  by (simp add: map_upt_Suc del: upt_Suc)

lemma retry_loop_fails:
  assumes f: "always_fails tr"
  shows "int a + int n = N \<Longrightarrow>
    \<exists>errs. length errs = n
      \<and> (\<forall>i<n. tr (a + i) (intent_after q (take i errs)) = Raises (errs ! i))
      \<and> retry_loop tr N a q le c
          = (c @ map (\<lambda>i. intent_after q (take i errs)) [0..<n],
             Raises (exhausted N (if n = 0 then le else Some (last errs))))"
proof (induction n arbitrary: a q le c)
  case 0
  then have "\<not> int a < N" by simp
  then have "retry_loop tr N a q le c = (c, Raises (exhausted N le))"
    by (subst retry_loop.simps) simp
  then show ?case by simp
next
  case (Suc n)
  then have lt: "int a < N" by simp
  obtain e where e: "tr a q = Raises e" using f unfolding always_fails_def by blast
  let ?q' = "if int a < N - 1 then fix_request q e else q"
  have step: "retry_loop tr N a q le c = retry_loop tr N (Suc a) ?q' (Some e) (c @ [q])"
    using lt e by (subst retry_loop.simps) simp
  from Suc.prems have "int (Suc a) + int n = N" by simp
  from Suc.IH[OF this, of ?q' "Some e" "c @ [q]"]
  obtain errs where l: "length errs = n"
    and t: "\<forall>i<n. tr (Suc a + i) (intent_after ?q' (take i errs)) = Raises (errs ! i)"
    and r: "retry_loop tr N (Suc a) ?q' (Some e) (c @ [q])
          = ((c @ [q]) @ map (\<lambda>i. intent_after ?q' (take i errs)) [0..<n],
             Raises (exhausted N (if n = 0 then Some e else Some (last errs))))"
    by blast
  have q': "0 < n \<Longrightarrow> ?q' = q @ feedback e"
    using Suc.prems by (simp add: fix_request_feedback)
  have shift: "\<And>i. i < n \<Longrightarrow> intent_after ?q' (take i errs) = intent_after q (take (Suc i) (e # errs))"
    using q' by (auto simp: intent_after_def)
  have "length (e # errs) = Suc n" using l by simp
  moreover have "\<forall>i<Suc n. tr (a + i) (intent_after q (take i (e # errs))) = Raises ((e # errs) ! i)"
  proof (intro allI impI)
    fix i assume i: "i < Suc n"
    show "tr (a + i) (intent_after q (take i (e # errs))) = Raises ((e # errs) ! i)"
    proof (cases i)
      case 0
      then show ?thesis using e by (simp add: intent_after_def)
    next
      case (Suc j)
      then have j: "j < n" using i by simp
      from t j have "tr (Suc a + j) (intent_after ?q' (take j errs)) = Raises (errs ! j)" by blast
      then show ?thesis using Suc shift[OF j] by simp
    qed
  qed
  moreover have "retry_loop tr N a q le c
       = (c @ map (\<lambda>i. intent_after q (take i (e # errs))) [0..<Suc n],
          Raises (exhausted N (if Suc n = 0 then le else Some (last (e # errs)))))"
  proof -
    have "map (\<lambda>i. intent_after ?q' (take i errs)) [0..<n]
        = map (\<lambda>i. intent_after q (take (Suc i) (e # errs))) [0..<n]"
      using shift by (intro map_cong) auto
    then have "map (\<lambda>i. intent_after q (take i (e # errs))) [0..<Suc n]
        = q # map (\<lambda>i. intent_after ?q' (take i errs)) [0..<n]"
      by (simp add: map_upt_Suc_shift intent_after_def del: upt_Suc)
    moreover have "(if n = 0 then Some e else Some (last errs)) = Some (last (e # errs))"
      using l by auto
    ultimately show ?thesis using step r by simp
  qed
  ultimately show ?case by blast
qed

text \<open>
  Claim C2. Let every attempt fail, whatever its query. Then for \<open>max_iterations = N\<close>
  the loop calls \<open>transform\<close> exactly \<open>N\<close> times and ends with the terminal error that
  names \<open>N\<close> and the last failure. There is the list \<open>errs\<close> of the \<open>N\<close> errors raised, in
  order, such that the query of attempt \<open>i\<close> (counted from 0) is the user's query followed
  by the feedback texts of the errors \<open>0, ..., i - 1\<close>, each holding the error's message:
  the query of the last attempt holds the messages of all \<open>N - 1\<close> earlier attempts in
  order, and nothing is reset.
\<close>

theorem iterative_transform_exhausts:
  assumes "always_fails (\<lambda>attempt query. transform env attempt query dataframes)"
  shows "\<exists>errs. length errs = nat N
     \<and> (\<forall>i < nat N. transform env i (intent_after q (take i errs)) dataframes = Raises (errs ! i))
     \<and> fst (iterative_transform env q dataframes N)
         = map (\<lambda>i. intent_after q (take i errs)) [0..<nat N]
     \<and> length (fst (iterative_transform env q dataframes N)) = nat N
     \<and> snd (iterative_transform env q dataframes N)
         = Raises (exhausted N (if nat N = 0 then None else Some (last errs)))"
proof (cases "0 \<le> N")
  case True
  then have "int 0 + int (nat N) = N" by simp
  from retry_loop_fails[OF assms this, of q None "[]"]
  show ?thesis unfolding iterative_transform_def by auto
next
  case False
  then have "retry_loop (\<lambda>attempt query. transform env attempt query dataframes) N 0 q None []
      = ([], Raises (exhausted N None))"
    by (subst retry_loop.simps) simp
  with False show ?thesis unfolding iterative_transform_def by simp
qed

lemma failing_env_fails: "transform failing_env attempt q dataframes = Raises (Exn ''KeyError'' ''a'')"
  by (simp add: transform_def failing_env_def generate_transformation_code_def execute_transformation_def)

theorem iterative_transform_exhausts_witness:
  "fst (iterative_transform failing_env ''sum x'' [] 2)
     = [''sum x'', ''sum x'' @ feedback (Exn ''KeyError'' ''a'')]
   \<and> snd (iterative_transform failing_env ''sum x'' [] 2)
     = Raises (exhausted 2 (Some (Exn ''KeyError'' ''a'')))"
proof -
  have "always_fails (\<lambda>attempt query. transform failing_env attempt query [])"
    by (simp add: always_fails_def failing_env_fails)
  from iterative_transform_exhausts[OF this, of 2 "''sum x''"]
  obtain errs where l: "length errs = 2"
    and t: "\<forall>i<2. transform failing_env i (intent_after ''sum x'' (take i errs)) [] = Raises (errs ! i)"
    and c: "fst (iterative_transform failing_env ''sum x'' [] 2)
           = map (\<lambda>i. intent_after ''sum x'' (take i errs)) [0..<2]"
    and r: "snd (iterative_transform failing_env ''sum x'' [] 2)
           = Raises (exhausted 2 (if (2::nat) = 0 then None else Some (last errs)))"
    by auto
  from t have a: "\<forall>i<2. errs ! i = Exn ''KeyError'' ''a''"
    by (simp add: failing_env_fails eq_commute)
  have "errs ! 0 = Exn ''KeyError'' ''a''" and "errs ! 1 = Exn ''KeyError'' ''a''"
  proof -
    have "(0::nat) < 2" and "(1::nat) < 2" by simp_all
    with a show "errs ! 0 = Exn ''KeyError'' ''a''" and "errs ! 1 = Exn ''KeyError'' ''a''"
      by blast+
  qed
  with l have "errs = [Exn ''KeyError'' ''a'', Exn ''KeyError'' ''a'']"
    by (cases errs; cases "tl errs") auto
  with c r show ?thesis by (simp add: intent_after_def upt_rec)
qed


section \<open>Running the generated code\<close>

text \<open>
  Result recovery after the code has run. When \<open>result_df\<close> is bound to a DataFrame,
  that DataFrame is the result. When \<open>result_df\<close> is \<open>None\<close> or unbound and some
  DataFrame is bound under a name other than \<open>pd\<close> and \<open>dataframes\<close> that does not
  start with an underscore, the last-inserted such DataFrame is the result. When there is
  none, the call raises the error that no result was produced.
\<close>

theorem recover_result_precedence:
  "(dict_get globals ''result_df'' = DataFrame d \<longrightarrow> recover_result globals = Returns (DataFrame d))
   \<and> (dict_get globals ''result_df'' = PyNone \<and> find_candidates globals \<noteq> []
        \<longrightarrow> (\<exists>d. snd (last (find_candidates globals)) = DataFrame d
                 \<and> recover_result globals = Returns (DataFrame d)))
   \<and> (dict_get globals ''result_df'' = PyNone \<and> find_candidates globals = []
        \<longrightarrow> recover_result globals = Raises no_result)"
proof (intro conjI impI)
  assume "dict_get globals ''result_df'' = DataFrame d"
  then show "recover_result globals = Returns (DataFrame d)"
    by (simp add: recover_result_def)
next
  assume a: "dict_get globals ''result_df'' = PyNone \<and> find_candidates globals \<noteq> []"
  then have "last (find_candidates globals) \<in> set (find_candidates globals)" by simp
  then have "is_DataFrame (snd (last (find_candidates globals)))"
    by (auto simp: find_candidates_def)
  then obtain d where d: "snd (last (find_candidates globals)) = DataFrame d"
    by (cases "snd (last (find_candidates globals))") auto
  with a have "recover_result globals = Returns (DataFrame d)"
    by (simp add: recover_result_def)
  with d show "\<exists>d. snd (last (find_candidates globals)) = DataFrame d
                 \<and> recover_result globals = Returns (DataFrame d)" by blast
next
  assume "dict_get globals ''result_df'' = PyNone \<and> find_candidates globals = []"
  then show "recover_result globals = Raises no_result"
    by (simp add: recover_result_def)
qed

theorem recover_result_precedence_witness:
  "recover_result (example_globals PyNone drivers (renamed excerpt drivers)) = Returns (DataFrame (renamed excerpt drivers))
   \<and> recover_result (example_globals (DataFrame drivers) drivers (renamed excerpt drivers))
       = Returns (DataFrame drivers)
   \<and> recover_result (initial_globals []) = Raises no_result"
proof -
  let ?g = "example_globals PyNone drivers (renamed excerpt drivers)"
  let ?h = "example_globals (DataFrame drivers) drivers (renamed excerpt drivers)"
  have c: "find_candidates ?g = [(''df'', DataFrame drivers), (''out'', DataFrame (renamed excerpt drivers))]"
    by (simp add: find_candidates_def example_globals_def startswith_def)
  have 1: "dict_get ?g ''result_df'' = PyNone \<and> find_candidates ?g \<noteq> []"
    using c by (simp add: dict_get_def example_globals_def)
  have 2: "dict_get ?h ''result_df'' = DataFrame drivers"
    by (simp add: dict_get_def example_globals_def)
  have 3: "dict_get (initial_globals []) ''result_df'' = PyNone \<and> find_candidates (initial_globals []) = []"
    by (simp add: dict_get_def initial_globals_def find_candidates_def)
  from recover_result_precedence[where globals = ?g, THEN conjunct2, THEN conjunct1, THEN mp, OF 1]
    recover_result_precedence[where globals = ?h and d = drivers, THEN conjunct1, THEN mp, OF 2]
    recover_result_precedence[where globals = "initial_globals []", THEN conjunct2, THEN conjunct2, THEN mp, OF 3]
  show ?thesis using c by simp
qed

text \<open>
  Claim C1 fails on the code at a \<open>result_df\<close> that is not a table. The generated code
  \<open>out = dataframes['a']\<close>, \<open>result_df = out['x']\<close> leaves \<open>result_df\<close> bound to a
  \<open>Series\<close> and \<open>out\<close> to a DataFrame: \<open>execute_transformation\<close>, declared to return a
  DataFrame, returns the \<open>Series\<close>, and does not fall back to \<open>out\<close>.
\<close>

theorem execute_transformation_returns_series:
  "execute_transformation (\<lambda>code globals. Returns (series_globals dataframes out)) code dataframes
     = Returns (Object ''Series'' (Some 3))
   \<and> find_candidates (series_globals dataframes out) = [(''out'', DataFrame out)]"
  by (simp add: execute_transformation_def recover_result_def series_globals_def dict_get_def
      find_candidates_def startswith_def)

text \<open>
  Claim C3, as stated, fails: the exception of the executed code leaves
  \<open>execute_transformation\<close> as an exception.
\<close>

theorem execute_transformation_propagates:
  "execute_transformation (exec failing_env) ''x = dataframes['a']'' [] = Raises (Exn ''KeyError'' ''a'')"
  by (simp add: execute_transformation_def failing_env_def)

text \<open>
  Claim C3, amended. For every code text and input mapping, an exception raised while
  the generated code runs is caught in \<open>execute_transformation\<close> only to be logged and
  is raised again unchanged: \<open>execute_transformation\<close> ends by raising this exception,
  and so does \<open>transform\<close>, which calls it. The exception is caught by the loop of
  \<open>iterative_transform\<close>.
\<close>

theorem execute_transformation_reraises:
  "(interp code (initial_globals dataframes) = Raises e
      \<longrightarrow> execute_transformation interp code dataframes = Raises e)
   \<and> (generate_transformation_code (generate_content env call) q (describe env dataframes) = Returns code
       \<and> exec env code (initial_globals dataframes) = Raises e
      \<longrightarrow> transform env call q dataframes = Raises e)"
  by (simp add: execute_transformation_def transform_def)

theorem execute_transformation_reraises_witness:
  "exec failing_env ''x = dataframes['a']'' (initial_globals []) = Raises (Exn ''KeyError'' ''a'')
   \<and> execute_transformation (exec failing_env) ''x = dataframes['a']'' [] = Raises (Exn ''KeyError'' ''a'')
   \<and> transform failing_env 0 ''sum x'' [] = Raises (Exn ''KeyError'' ''a'')"
proof -
  let ?code = "add_result_df (clean_code_fences ''x = dataframes['a']'')"
  have r: "exec failing_env ''x = dataframes['a']'' (initial_globals []) = Raises (Exn ''KeyError'' ''a'')"
    by (simp add: failing_env_def)
  have g: "generate_transformation_code (generate_content failing_env 0) ''sum x'' (describe failing_env []) = Returns ?code
      \<and> exec failing_env ?code (initial_globals []) = Raises (Exn ''KeyError'' ''a'')"
    by (simp add: generate_transformation_code_def failing_env_def)
  have 1: "execute_transformation (exec failing_env) ''x = dataframes['a']'' [] = Raises (Exn ''KeyError'' ''a'')"
    using execute_transformation_reraises[where interp = "exec failing_env"
        and code = "''x = dataframes['a']''" and dataframes = "[]" and e = "Exn ''KeyError'' ''a''",
        THEN conjunct1, THEN mp, OF r] .
  have 2: "transform failing_env 0 ''sum x'' [] = Raises (Exn ''KeyError'' ''a'')"
    using execute_transformation_reraises[where code = ?code and dataframes = "[]"
        and e = "Exn ''KeyError'' ''a''" and env = failing_env and call = 0 and q = "''sum x''",
        THEN conjunct2, THEN mp, OF g] .
  from r 1 2 show ?thesis by (intro conjI)
qed

section \<open>Loading\<close>

lemma frames_conn_execute: "frames (snd (conn_execute be sql df st)) = frames st"
  by (simp add: conn_execute_def split: option.splits result.splits)

lemma frames_seq:
  "frames (snd (m st)) = F \<Longrightarrow> (\<And>a s. frames s = F \<Longrightarrow> frames (snd (f a s)) = F)
   \<Longrightarrow> frames (snd (seq m f st)) = F"
  by (auto simp: seq_def split: prod.splits result.splits)

lemma load_to_duckdb_frames:
  assumes "conn st \<noteq> None \<or> (\<exists>db. duckdb_connect be ''warehouse.duckdb'' = Returns db)"
  shows "frames (snd (load_to_duckdb be df table_name mode st)) = (frames st)(df := renamed (unicode_data be) (frames st df))"
proof -
  let ?F = "(frames st)(df := renamed (unicode_data be) (frames st df))"
  let ?first = "\<lambda>st. if conn st = None then connect_duckdb be ''warehouse.duckdb'' st else (Returns (), st)"
  obtain u st1 where first: "?first st = (Returns u, st1)" and f1: "frames st1 = frames st"
    using assms by (cases "conn st") (auto simp: connect_duckdb_def)
  have rest: "frames (snd (seq (set_columns be df) g st1)) = ?F"
    if "\<And>a s. frames s = ?F \<Longrightarrow> frames (snd (g a s)) = ?F" for g :: "unit \<Rightarrow> ('a, 'b) agent_state \<Rightarrow> unit result \<times> ('a, 'b) agent_state"
    using that f1 by (intro frames_seq) (auto simp: set_columns_def renamed_def)
  have "frames (snd (load_to_duckdb be df table_name mode st)) = frames (snd (seq (set_columns be df)
     (\<lambda>_. seq (\<lambda>st. if mode = JStr ''replace''
                      then conn_execute be (''DROP TABLE IF EXISTS '' @ jstr table_name) df st
                      else (Returns (), st))
     (\<lambda>_. seq (conn_execute be (''CREATE TABLE IF NOT EXISTS '' @ jstr table_name @ '' AS SELECT * FROM df'') df)
     (\<lambda>_. conn_execute be (''SELECT COUNT(*) FROM '' @ jstr table_name) df))) st1))"
    using first unfolding load_to_duckdb_def by (simp add: seq_def[of ?first])
  also have "\<dots> = ?F"
    by (rule rest) (auto intro!: frames_seq simp: frames_conn_execute)
  finally show ?thesis .
qed

text \<open>
  Claim C10. \<open>load_to_duckdb\<close> renames the columns of the table it is given in the
  caller's own object: once the connection is there (it is open already, or
  \<open>duckdb.connect\<close> succeeds), then after the call, whether it returns or raises, the
  caller's table has the sanitized column names and its data as before, every other
  table is untouched, and the caller's table has changed whenever some column name was
  not already sanitized.
\<close>

theorem load_to_duckdb_renames_in_place:
  assumes "conn st \<noteq> None \<or> (\<exists>db. duckdb_connect be ''warehouse.duckdb'' = Returns db)"
  shows "columns (frames (snd (load_to_duckdb be df table_name mode st)) df)
           = map (sanitize_column_name (unicode_data be)) (columns (frames st df))
       \<and> data (frames (snd (load_to_duckdb be df table_name mode st)) df) = data (frames st df)
       \<and> (\<forall>r. r \<noteq> df \<longrightarrow> frames (snd (load_to_duckdb be df table_name mode st)) r = frames st r)
       \<and> (list_ex (\<lambda>c. sanitize_column_name (unicode_data be) c \<noteq> c) (columns (frames st df))
            \<longrightarrow> frames (snd (load_to_duckdb be df table_name mode st)) df \<noteq> frames st df)"
proof -
  let ?st' = "snd (load_to_duckdb be df table_name mode st)"
  have f: "frames ?st' = (frames st)(df := renamed (unicode_data be) (frames st df))"
    using assms by (rule load_to_duckdb_frames)
  have c: "columns (frames ?st' df) = map (sanitize_column_name (unicode_data be)) (columns (frames st df))"
    by (simp add: f renamed_def)
  have "map (sanitize_column_name (unicode_data be)) (columns (frames st df)) \<noteq> columns (frames st df)"
    if "list_ex (\<lambda>c. sanitize_column_name (unicode_data be) c \<noteq> c) (columns (frames st df))"
    using that by (auto simp: list_ex_iff map_idI dest!: map_eq_conv[THEN iffD1, of _ _ id, simplified])
  with c have "list_ex (\<lambda>c. sanitize_column_name (unicode_data be) c \<noteq> c) (columns (frames st df))
            \<longrightarrow> frames ?st' df \<noteq> frames st df"
    by metis
  then show ?thesis using c by (simp add: f renamed_def)
qed

lemma drivers_renamed:
  "sanitize_column_name excerpt (ustr ''Driver Name'') = ustr ''driver_name''"
  "sanitize_column_name excerpt (ustr ''Points'') = ustr ''points''"
  by code_simp+

theorem load_to_duckdb_renames_in_place_witness:
  "columns (frames (snd (load_to_duckdb stub_backend 0 (JStr ''result_table'') (JStr ''replace'') stub_state)) 0)
     = [ustr ''driver_name'', ustr ''points'']
   \<and> columns (frames stub_state 0) = [ustr ''Driver Name'', ustr ''Points'']
   \<and> frames (snd (load_to_duckdb stub_backend 0 (JStr ''result_table'') (JStr ''replace'') stub_state)) 0
     \<noteq> frames stub_state 0"
proof -
  have u: "unicode_data stub_backend = excerpt" by (simp add: stub_backend_def)
  have n: "ustr ''driver_name'' \<noteq> ustr ''Driver Name''" by code_simp
  have "conn stub_state \<noteq> None \<or> (\<exists>db. duckdb_connect stub_backend ''warehouse.duckdb'' = Returns db)"
    by (simp add: stub_backend_def)
  from load_to_duckdb_renames_in_place[OF this, of 0 "JStr ''result_table''" "JStr ''replace''"]
  show ?thesis using n by (simp add: stub_state_def drivers_def drivers_renamed u)
qed

lemma dispatch_unsupported:
  "d \<notin> supported \<Longrightarrow> dispatch be df d kw st = (Raises (ValueError (''Unsupported destination: '' @ jstr d)), st)"
  by (simp add: dispatch_def supported_def)

text \<open>
  Claim C7, amended. For every destination that is not one of \<open>duckdb\<close>, \<open>csv\<close>,
  \<open>excel\<close>, \<open>parquet\<close>, given by the caller or chosen by the completion service,
  \<open>load\<close> raises \<open>ValueError\<close> naming the destination, and changes nothing. The default
  \<open>duckdb\<close> is taken only when the reply of the service has no \<open>destination\<close> entry.
\<close>

theorem load_unsupported_raises:
  "(d \<notin> supported \<longrightarrow>
      load be df q (Some d) kw st = (Raises (ValueError (''Unsupported destination: '' @ jstr d)), st))
   \<and> (d \<notin> supported \<and> ai_determine_destination be q (frames st df) = Returns dest_info
       \<and> dest_info ''destination'' = Some d \<longrightarrow>
      load be df q None kw st = (Raises (ValueError (''Unsupported destination: '' @ jstr d)), st))
   \<and> (ai_determine_destination be q (frames st df) = Returns dest_info
       \<and> dest_info ''destination'' = None \<longrightarrow>
      load be df q None kw st = dispatch be df (JStr ''duckdb'') (kw ++ dest_info) st)"
  by (simp add: load_def dispatch_unsupported get_or_def)

lemma stub_reply: "ai_determine_destination stub_backend q d = Returns [''destination'' \<mapsto> JStr ''postgres'']"
  by (simp add: ai_determine_destination_def ask_destination_def stub_backend_def re_search_object_def)

text \<open>
  Claim C7, as stated, fails: an unsupported destination makes the Load stage raise,
  both when the completion service chooses it and when the caller gives it.
\<close>

theorem load_unsupported_counterexample:
  "load stub_backend 0 ''keep the totals'' None Map.empty stub_state
     = (Raises (ValueError ''Unsupported destination: postgres''), stub_state)
   \<and> load stub_backend 0 ''keep the totals'' (Some (JStr ''sqlite'')) Map.empty stub_state
     = (Raises (ValueError ''Unsupported destination: sqlite''), stub_state)"
  by (simp add: load_def stub_reply get_or_def dispatch_def)

lemma silent_reply: "ai_determine_destination silent_backend q d = Returns Map.empty"
  by (simp add: ai_determine_destination_def ask_destination_def silent_backend_def re_search_object_def)

theorem load_unsupported_raises_witness:
  "load stub_backend 0 ''keep the totals'' (Some (JStr ''sqlite'')) Map.empty stub_state
     = (Raises (ValueError ''Unsupported destination: sqlite''), stub_state)
   \<and> load stub_backend 0 ''keep the totals'' None Map.empty stub_state
     = (Raises (ValueError ''Unsupported destination: postgres''), stub_state)
   \<and> load silent_backend 0 ''keep the totals'' None Map.empty stub_state
     = dispatch silent_backend 0 (JStr ''duckdb'') Map.empty stub_state"
proof -
  have s: "JStr ''sqlite'' \<notin> supported" by (simp add: supported_def)
  have 1: "load stub_backend 0 ''keep the totals'' (Some (JStr ''sqlite'')) Map.empty stub_state
     = (Raises (ValueError (''Unsupported destination: '' @ jstr (JStr ''sqlite''))), stub_state)"
    using load_unsupported_raises[where d = "JStr ''sqlite''" and be = stub_backend and df = 0
        and q = "''keep the totals''" and kw = Map.empty and st = stub_state,
        THEN conjunct1, THEN mp, OF s] .
  have p: "JStr ''postgres'' \<notin> supported
      \<and> ai_determine_destination stub_backend ''keep the totals'' (frames stub_state 0)
          = Returns [''destination'' \<mapsto> JStr ''postgres'']
      \<and> [''destination'' \<mapsto> JStr ''postgres''] ''destination'' = Some (JStr ''postgres'')"
    by (simp add: supported_def stub_reply)
  have 2: "load stub_backend 0 ''keep the totals'' None Map.empty stub_state
     = (Raises (ValueError (''Unsupported destination: '' @ jstr (JStr ''postgres''))), stub_state)"
    using load_unsupported_raises[where d = "JStr ''postgres''" and be = stub_backend and df = 0
        and q = "''keep the totals''" and kw = Map.empty and st = stub_state
        and dest_info = "[''destination'' \<mapsto> JStr ''postgres'']",
        THEN conjunct2, THEN conjunct1, THEN mp, OF p] .
  have e: "ai_determine_destination silent_backend ''keep the totals'' (frames stub_state 0) = Returns Map.empty
      \<and> Map.empty ''destination'' = None"
    by (simp add: silent_reply)
  have 3: "load silent_backend 0 ''keep the totals'' None Map.empty stub_state
     = dispatch silent_backend 0 (JStr ''duckdb'') (Map.empty ++ Map.empty) stub_state"
    using load_unsupported_raises[where be = silent_backend and df = 0
        and q = "''keep the totals''" and kw = Map.empty and st = stub_state
        and dest_info = Map.empty, THEN conjunct2, THEN conjunct2, THEN mp, OF e] .
  from 1 2 3 show ?thesis by simp
qed

text \<open>
  Claim C8. When the completion service raises, or its reply holds no brace-delimited
  object, or \<open>json.loads\<close> rejects the object found, \<open>ai_determine_destination\<close> returns
  and does not raise: it returns a default whose destination is \<open>duckdb\<close>, with the
  table name \<open>ai_result\<close> when no object is found and \<open>result\<close> when the
  service or the parser raised.
\<close>

theorem ai_determine_destination_default:
  "(destination_reply be (destination_prompt q df) = Raises e
      \<longrightarrow> ai_determine_destination be q df = Returns fallback_destination)
   \<and> (destination_reply be (destination_prompt q df) = Returns reply \<and> re_search_object reply = None
      \<longrightarrow> ai_determine_destination be q df = Returns default_destination)
   \<and> (destination_reply be (destination_prompt q df) = Returns reply \<and> re_search_object reply = Some m
       \<and> json_loads be m = Raises e
      \<longrightarrow> ai_determine_destination be q df = Returns fallback_destination)
   \<and> default_destination ''destination'' = Some (JStr ''duckdb'')
   \<and> default_destination ''table_name'' = Some (JStr ''ai_result'')
   \<and> fallback_destination ''destination'' = Some (JStr ''duckdb'')
   \<and> fallback_destination ''table_name'' = Some (JStr ''result'')"
  by (simp add: ai_determine_destination_def ask_destination_def default_destination_def
      fallback_destination_def)

theorem ai_determine_destination_default_witness:
  "ai_determine_destination chatty_backend ''keep the totals'' drivers = Returns fallback_destination
   \<and> ai_determine_destination (chatty_backend\<lparr>destination_reply := (\<lambda>prompt. Returns ''csv, I think'')\<rparr>)
        ''keep the totals'' drivers = Returns default_destination
   \<and> ai_determine_destination down_backend ''keep the totals'' drivers = Returns fallback_destination"
proof -
  let ?p = "destination_prompt ''keep the totals'' drivers"
  let ?b = "chatty_backend\<lparr>destination_reply := (\<lambda>prompt. Returns ''csv, I think'')\<rparr>"
  have 1: "destination_reply chatty_backend ?p = Returns ''I would export {destination: csv} I think''
      \<and> re_search_object ''I would export {destination: csv} I think'' = Some ''{destination: csv}''
      \<and> json_loads chatty_backend ''{destination: csv}'' = Raises (Exn ''JSONDecodeError'' ''Expecting value'')"
    by (simp add: chatty_backend_def stub_backend_def re_search_object_def)
  have 2: "destination_reply ?b ?p = Returns ''csv, I think'' \<and> re_search_object ''csv, I think'' = None"
    by (simp add: re_search_object_def)
  have 3: "destination_reply down_backend ?p = Raises (Exn ''ServiceUnavailable'' ''503'')"
    by (simp add: down_backend_def)
  from ai_determine_destination_default[where be = chatty_backend and q = "''keep the totals''"
      and df = drivers and reply = "''I would export {destination: csv} I think''"
      and m = "''{destination: csv}''", THEN conjunct2, THEN conjunct2, THEN conjunct1, THEN mp, OF 1]
    ai_determine_destination_default[where be = ?b and q = "''keep the totals''" and df = drivers
      and reply = "''csv, I think''", THEN conjunct2, THEN conjunct1, THEN mp, OF 2]
    ai_determine_destination_default[where be = down_backend and q = "''keep the totals''"
      and df = drivers, THEN conjunct1, THEN mp, OF 3]
  show ?thesis by simp
qed

section \<open>The run record\<close>

lemma set_stage_reported:
  "all_reported r \<Longrightarrow> st = ''success'' \<or> st = ''skipped'' \<Longrightarrow> all_reported (set_stage name st i r)"
  by (auto simp: all_reported_def set_stage_def reported_def)

lemma extract_step_reported: "all_reported r \<Longrightarrow> all_reported (snd (extract_step ag q dir r))"
  by (auto simp: extract_step_def set_stage_reported split: result.splits)

lemma transform_step_reported: "all_reported r \<Longrightarrow> all_reported (snd (transform_step ag q sk ex r))"
  by (auto simp: transform_step_def set_stage_reported split: result.splits list.splits)

lemma load_step_reported: "all_reported r \<Longrightarrow> all_reported (snd (load_step ag q sk d r))"
  by (auto simp: load_step_def set_stage_reported split: result.splits)

lemma analyze_step_reported: "all_reported r \<Longrightarrow> all_reported (snd (analyze_step ag q an d r))"
  by (auto simp: analyze_step_def set_stage_reported split: result.splits)

lemma seq_reported:
  "all_reported (snd (m r)) \<Longrightarrow> (\<And>a s. all_reported s \<Longrightarrow> all_reported (snd (f a s)))
   \<Longrightarrow> all_reported (snd (seq m f r))"
  by (auto simp: seq_def split: prod.splits result.splits)

lemma run_stages_reported:
  "all_reported r \<Longrightarrow> all_reported (snd (run_stages ag q dir st sl an r))"
  unfolding run_stages_def
  by (intro seq_reported extract_step_reported transform_step_reported load_step_reported
      analyze_step_reported)

lemma same_header_refl: "same_header r r"
  by (simp add: same_header_def)

lemma same_header_set_stage: "same_header r s \<Longrightarrow> same_header r (set_stage name st i s)"
  by (simp add: same_header_def set_stage_def)

lemma extract_step_header: "same_header r0 r \<Longrightarrow> same_header r0 (snd (extract_step ag q dir r))"
  by (auto simp: extract_step_def same_header_set_stage split: result.splits)

lemma transform_step_header: "same_header r0 r \<Longrightarrow> same_header r0 (snd (transform_step ag q sk ex r))"
  by (auto simp: transform_step_def same_header_set_stage split: result.splits list.splits)

lemma load_step_header: "same_header r0 r \<Longrightarrow> same_header r0 (snd (load_step ag q sk d r))"
  by (auto simp: load_step_def same_header_set_stage split: result.splits)

lemma analyze_step_header: "same_header r0 r \<Longrightarrow> same_header r0 (snd (analyze_step ag q an d r))"
  by (auto simp: analyze_step_def same_header_set_stage split: result.splits)

lemma seq_header:
  "same_header r0 (snd (m r)) \<Longrightarrow> (\<And>a s. same_header r0 s \<Longrightarrow> same_header r0 (snd (f a s)))
   \<Longrightarrow> same_header r0 (snd (seq m f r))"
  by (auto simp: seq_def split: prod.splits result.splits)

lemma run_stages_header: "same_header r (snd (run_stages ag q dir st sl an r))"
  unfolding run_stages_def
  by (intro seq_header extract_step_header transform_step_header load_step_header
      analyze_step_header same_header_refl)

lemma no_entry: "map fst xs = ns \<Longrightarrow> k \<notin> set ns \<Longrightarrow> map_of xs k = None"
  by (metis map_of_eq_None_iff set_map)

lemma extract_step_raises: "extract_step ag q dir r = (Raises e, r') \<Longrightarrow> r' = r"
  by (auto simp: extract_step_def split: result.splits if_splits)

lemma extract_step_returns:
  "extract_step ag q dir r = (Returns ex, r') \<Longrightarrow> map fst (stages r') = map fst (stages r) @ [''extract'']"
  by (auto simp: extract_step_def set_stage_def split: result.splits if_splits)

lemma transform_step_raises: "transform_step ag q sk ex r = (Raises e, r') \<Longrightarrow> r' = r"
  by (auto simp: transform_step_def split: result.splits if_splits list.splits)

lemma transform_step_returns:
  "transform_step ag q sk ex r = (Returns d, r') \<Longrightarrow> map fst (stages r') = map fst (stages r) @ [''transform'']"
  by (auto simp: transform_step_def set_stage_def split: result.splits if_splits list.splits)

lemma load_step_raises: "load_step ag q sk d r = (Raises e, r') \<Longrightarrow> r' = r"
  by (auto simp: load_step_def split: result.splits if_splits)

lemma load_step_returns:
  "load_step ag q sk d r = (Returns d', r') \<Longrightarrow> map fst (stages r') = map fst (stages r) @ [''load'']"
  by (auto simp: load_step_def set_stage_def split: result.splits if_splits)

lemma analyze_step_raises: "analyze_step ag q an d r = (Raises e, r') \<Longrightarrow> r' = r"
  by (auto simp: analyze_step_def split: result.splits if_splits)

lemma run_stages_failure:
  assumes f: "run_stages ag q dir st sl an r0 = (Raises e, r)" and z: "stages r0 = []"
  shows "(fst (extract_step ag q dir r0) = Raises e \<and> stages r = [])
       \<or> (\<exists>ex r1. extract_step ag q dir r0 = (Returns ex, r1)
             \<and> fst (transform_step ag q st ex r1) = Raises e
             \<and> map fst (stages r) = [''extract''])
       \<or> (\<exists>ex r1 df r2. extract_step ag q dir r0 = (Returns ex, r1)
             \<and> transform_step ag q st ex r1 = (Returns df, r2)
             \<and> fst (load_step ag q sl df r2) = Raises e
             \<and> map fst (stages r) = [''extract'', ''transform''])
       \<or> (\<exists>ex r1 df r2 df' r3. extract_step ag q dir r0 = (Returns ex, r1)
             \<and> transform_step ag q st ex r1 = (Returns df, r2)
             \<and> load_step ag q sl df r2 = (Returns df', r3)
             \<and> fst (analyze_step ag q an df' r3) = Raises e
             \<and> map fst (stages r) = [''extract'', ''transform'', ''load''])"
proof -
  obtain x1 r1 where s1: "extract_step ag q dir r0 = (x1, r1)" by (cases "extract_step ag q dir r0")
  show ?thesis
  proof (cases x1)
    case (Raises e1)
    with f s1 have "e1 = e" "r = r1" by (simp_all add: run_stages_def seq_def)
    moreover have "r1 = r0" using s1 Raises by (simp add: extract_step_raises)
    ultimately show ?thesis using s1 Raises z by simp
  next
    case (Returns ex)
    have n1: "map fst (stages r1) = [''extract'']"
      using extract_step_returns[of ag q dir r0 ex r1] s1 Returns z by simp
    obtain x2 r2 where s2: "transform_step ag q st ex r1 = (x2, r2)"
      by (cases "transform_step ag q st ex r1")
    show ?thesis
    proof (cases x2)
      case (Raises e2)
      with f s1 s2 Returns have "e2 = e" "r = r2" by (simp_all add: run_stages_def seq_def)
      moreover have "r2 = r1" using s2 Raises by (simp add: transform_step_raises)
      ultimately have "extract_step ag q dir r0 = (Returns ex, r1)
             \<and> fst (transform_step ag q st ex r1) = Raises e
             \<and> map fst (stages r) = [''extract'']"
        using s1 s2 Returns Raises n1 by simp
      then have E: "\<exists>ex r1. extract_step ag q dir r0 = (Returns ex, r1)
             \<and> fst (transform_step ag q st ex r1) = Raises e
             \<and> map fst (stages r) = [''extract'']"
        by (intro exI)
      show ?thesis by (rule disjI2, rule disjI1, rule E)
    next
      case df: (Returns df)
      have n2: "map fst (stages r2) = [''extract'', ''transform'']"
        using transform_step_returns[of ag q st ex r1 df r2] s2 df n1 by simp
      obtain x3 r3 where s3: "load_step ag q sl df r2 = (x3, r3)"
        by (cases "load_step ag q sl df r2")
      show ?thesis
      proof (cases x3)
        case (Raises e3)
        with f s1 s2 s3 Returns df have "e3 = e" "r = r3" by (simp_all add: run_stages_def seq_def)
        moreover have "r3 = r2" using s3 Raises by (simp add: load_step_raises)
        ultimately have "extract_step ag q dir r0 = (Returns ex, r1)
             \<and> transform_step ag q st ex r1 = (Returns df, r2)
             \<and> fst (load_step ag q sl df r2) = Raises e
             \<and> map fst (stages r) = [''extract'', ''transform'']"
          using s1 s2 s3 Returns df Raises n2 by simp
        then have E: "\<exists>ex r1 df r2. extract_step ag q dir r0 = (Returns ex, r1)
             \<and> transform_step ag q st ex r1 = (Returns df, r2)
             \<and> fst (load_step ag q sl df r2) = Raises e
             \<and> map fst (stages r) = [''extract'', ''transform'']"
          by (intro exI)
        show ?thesis by (rule disjI2, rule disjI2, rule disjI1, rule E)
      next
        case df': (Returns df')
        have n3: "map fst (stages r3) = [''extract'', ''transform'', ''load'']"
          using load_step_returns[of ag q sl df r2 df' r3] s3 df' n2 by simp
        have a: "analyze_step ag q an df' r3 = (Raises e, r)"
          using f s1 s2 s3 Returns df df' by (simp add: run_stages_def seq_def)
        then have "r = r3" by (rule analyze_step_raises)
        then have "extract_step ag q dir r0 = (Returns ex, r1)
             \<and> transform_step ag q st ex r1 = (Returns df, r2)
             \<and> load_step ag q sl df r2 = (Returns df', r3)
             \<and> fst (analyze_step ag q an df' r3) = Raises e
             \<and> map fst (stages r) = [''extract'', ''transform'', ''load'']"
          using s1 s2 s3 Returns df df' n3 a by simp
        then have E: "\<exists>ex r1 df r2 df' r3. extract_step ag q dir r0 = (Returns ex, r1)
             \<and> transform_step ag q st ex r1 = (Returns df, r2)
             \<and> load_step ag q sl df r2 = (Returns df', r3)
             \<and> fst (analyze_step ag q an df' r3) = Raises e
             \<and> map fst (stages r) = [''extract'', ''transform'', ''load'']"
          by (intro exI)
        show ?thesis by (rule disjI2, rule disjI2, rule disjI2, rule E)
      qed
    qed
  qed
qed

lemma run_failure_cases:
  assumes f: "run_stages ag q dir st sl an r0 = (Raises e, r)" and z: "stages r0 = []"
    and R: "stages R = stages r"
  shows "(fst (extract_step ag q dir r0) = Raises e
            \<and> stages R = [] \<and> map_of (stages R) ''extract'' = None)
       \<or> (\<exists>ex r1. extract_step ag q dir r0 = (Returns ex, r1)
             \<and> fst (transform_step ag q st ex r1) = Raises e
             \<and> map fst (stages R) = [''extract'']
             \<and> map_of (stages R) ''transform'' = None)
       \<or> (\<exists>ex r1 df r2. extract_step ag q dir r0 = (Returns ex, r1)
             \<and> transform_step ag q st ex r1 = (Returns df, r2)
             \<and> fst (load_step ag q sl df r2) = Raises e
             \<and> map fst (stages R) = [''extract'', ''transform'']
             \<and> map_of (stages R) ''load'' = None)
       \<or> (\<exists>ex r1 df r2 df' r3. extract_step ag q dir r0 = (Returns ex, r1)
             \<and> transform_step ag q st ex r1 = (Returns df, r2)
             \<and> load_step ag q sl df r2 = (Returns df', r3)
             \<and> fst (analyze_step ag q an df' r3) = Raises e
             \<and> map fst (stages R) = [''extract'', ''transform'', ''load'']
             \<and> map_of (stages R) ''analyze'' = None)"
proof -
  have 1: "map_of (stages R) ''transform'' = None" if "map fst (stages r) = [''extract'']"
    using that R by (intro no_entry[of _ "[''extract'']"]) simp_all
  have 2: "map_of (stages R) ''load'' = None" if "map fst (stages r) = [''extract'', ''transform'']"
    using that R by (intro no_entry[of _ "[''extract'', ''transform'']"]) simp_all
  have 3: "map_of (stages R) ''analyze'' = None"
    if "map fst (stages r) = [''extract'', ''transform'', ''load'']"
    using that R by (intro no_entry[of _ "[''extract'', ''transform'', ''load'']"]) simp_all
  from run_stages_failure[OF f z] consider
      (a) "fst (extract_step ag q dir r0) = Raises e" "stages r = []"
    | (b) ex r1 where "extract_step ag q dir r0 = (Returns ex, r1)"
          "fst (transform_step ag q st ex r1) = Raises e" "map fst (stages r) = [''extract'']"
    | (c) ex r1 df r2 where "extract_step ag q dir r0 = (Returns ex, r1)"
          "transform_step ag q st ex r1 = (Returns df, r2)"
          "fst (load_step ag q sl df r2) = Raises e"
          "map fst (stages r) = [''extract'', ''transform'']"
    | (d) ex r1 df r2 df' r3 where "extract_step ag q dir r0 = (Returns ex, r1)"
          "transform_step ag q st ex r1 = (Returns df, r2)"
          "load_step ag q sl df r2 = (Returns df', r3)"
          "fst (analyze_step ag q an df' r3) = Raises e"
          "map fst (stages r) = [''extract'', ''transform'', ''load'']"
    by (elim disjE exE conjE)
  then show ?thesis
  proof cases
    case a
    then show ?thesis using R by simp
  next
    case b
    then have "extract_step ag q dir r0 = (Returns ex, r1)
             \<and> fst (transform_step ag q st ex r1) = Raises e
             \<and> map fst (stages R) = [''extract'']
             \<and> map_of (stages R) ''transform'' = None"
      using 1 R by simp
    then have E: "\<exists>ex r1. extract_step ag q dir r0 = (Returns ex, r1)
             \<and> fst (transform_step ag q st ex r1) = Raises e
             \<and> map fst (stages R) = [''extract'']
             \<and> map_of (stages R) ''transform'' = None"
      by (intro exI)
    show ?thesis by (rule disjI2, rule disjI1, rule E)
  next
    case c
    then have "extract_step ag q dir r0 = (Returns ex, r1)
             \<and> transform_step ag q st ex r1 = (Returns df, r2)
             \<and> fst (load_step ag q sl df r2) = Raises e
             \<and> map fst (stages R) = [''extract'', ''transform'']
             \<and> map_of (stages R) ''load'' = None"
      using 2 R by simp
    then have E: "\<exists>ex r1 df r2. extract_step ag q dir r0 = (Returns ex, r1)
             \<and> transform_step ag q st ex r1 = (Returns df, r2)
             \<and> fst (load_step ag q sl df r2) = Raises e
             \<and> map fst (stages R) = [''extract'', ''transform'']
             \<and> map_of (stages R) ''load'' = None"
      by (intro exI)
    show ?thesis by (rule disjI2, rule disjI2, rule disjI1, rule E)
  next
    case d
    then have "extract_step ag q dir r0 = (Returns ex, r1)
             \<and> transform_step ag q st ex r1 = (Returns df, r2)
             \<and> load_step ag q sl df r2 = (Returns df', r3)
             \<and> fst (analyze_step ag q an df' r3) = Raises e
             \<and> map fst (stages R) = [''extract'', ''transform'', ''load'']
             \<and> map_of (stages R) ''analyze'' = None"
      using 3 R by simp
    then have E: "\<exists>ex r1 df r2 df' r3. extract_step ag q dir r0 = (Returns ex, r1)
             \<and> transform_step ag q st ex r1 = (Returns df, r2)
             \<and> load_step ag q sl df r2 = (Returns df', r3)
             \<and> fst (analyze_step ag q an df' r3) = Raises e
             \<and> map fst (stages R) = [''extract'', ''transform'', ''load'']
             \<and> map_of (stages R) ''analyze'' = None"
      by (intro exI)
    show ?thesis by (rule disjI2, rule disjI2, rule disjI2, rule E)
  qed
qed

text \<open>
  Claim C6, amended. Every run ends by returning its record, with a final status
  (\<open>success\<close> or \<open>failed\<close>) and an end time. When a stage fails with an exception \<open>e\<close>, the
  record has the status \<open>failed\<close>, \<open>str(e)\<close> as its top-level \<open>error\<close>, and no duration.
  Its stage entries are those written before the failure, each \<open>success\<close> or \<open>skipped\<close>,
  and they are the entries of the stages that come before the failing one: none when
  the extract stage fails, \<open>extract\<close> when the transform stage fails, \<open>extract\<close> and
  \<open>transform\<close> when the load stage fails, and \<open>extract\<close>, \<open>transform\<close> and \<open>load\<close> when
  the analyze stage fails. The failing stage itself has no entry in the record.
\<close>

theorem run_failure_record:
  "(status (run ag q dir st sl an t0 t1) = Some ''success''
      \<or> status (run ag q dir st sl an t0 t1) = Some ''failed'')
   \<and> end_time (run ag q dir st sl an t0 t1) = Some t1
   \<and> (fst (run_stages ag q dir st sl an (initial_results q t0)) = Raises e \<longrightarrow>
        status (run ag q dir st sl an t0 t1) = Some ''failed''
        \<and> error (run ag q dir st sl an t0 t1) = Some (str_exn e)
        \<and> duration_seconds (run ag q dir st sl an t0 t1) = None
        \<and> stages (run ag q dir st sl an t0 t1)
            = stages (snd (run_stages ag q dir st sl an (initial_results q t0)))
        \<and> list_all (\<lambda>(name, s). reported name s) (stages (run ag q dir st sl an t0 t1))
        \<and> ((fst (extract_step ag q dir (initial_results q t0)) = Raises e
               \<and> stages (run ag q dir st sl an t0 t1) = []
               \<and> map_of (stages (run ag q dir st sl an t0 t1)) ''extract'' = None)
           \<or> (\<exists>ex r1. extract_step ag q dir (initial_results q t0) = (Returns ex, r1)
                 \<and> fst (transform_step ag q st ex r1) = Raises e
                 \<and> map fst (stages (run ag q dir st sl an t0 t1)) = [''extract'']
                 \<and> map_of (stages (run ag q dir st sl an t0 t1)) ''transform'' = None)
           \<or> (\<exists>ex r1 df r2. extract_step ag q dir (initial_results q t0) = (Returns ex, r1)
                 \<and> transform_step ag q st ex r1 = (Returns df, r2)
                 \<and> fst (load_step ag q sl df r2) = Raises e
                 \<and> map fst (stages (run ag q dir st sl an t0 t1)) = [''extract'', ''transform'']
                 \<and> map_of (stages (run ag q dir st sl an t0 t1)) ''load'' = None)
           \<or> (\<exists>ex r1 df r2 df' r3. extract_step ag q dir (initial_results q t0) = (Returns ex, r1)
                 \<and> transform_step ag q st ex r1 = (Returns df, r2)
                 \<and> load_step ag q sl df r2 = (Returns df', r3)
                 \<and> fst (analyze_step ag q an df' r3) = Raises e
                 \<and> map fst (stages (run ag q dir st sl an t0 t1))
                     = [''extract'', ''transform'', ''load'']
                 \<and> map_of (stages (run ag q dir st sl an t0 t1)) ''analyze'' = None)))"
proof -
  let ?r0 = "initial_results q t0 :: 'a run_record"
  let ?R = "run ag q dir st sl an t0 t1"
  obtain res r where rs: "run_stages ag q dir st sl an ?r0 = (res, r)" by (cases "run_stages ag q dir st sl an ?r0")
  have "all_reported ?r0" by (simp add: all_reported_def initial_results_def)
  then have "all_reported (snd (run_stages ag q dir st sl an ?r0))" by (rule run_stages_reported)
  then have rep: "list_all (\<lambda>(name, s). reported name s) (stages r)" using rs by (simp add: all_reported_def)
  have "same_header ?r0 (snd (run_stages ag q dir st sl an ?r0))" by (rule run_stages_header)
  then have hd: "duration_seconds r = None" using rs by (simp add: same_header_def initial_results_def)
  have z: "stages ?r0 = []" by (simp add: initial_results_def)
  have sr: "stages ?R = stages r" using rs by (cases res) (simp_all add: run_def)
  have A: "status ?R = Some ''success'' \<or> status ?R = Some ''failed''"
    using rs by (cases res) (simp_all add: run_def)
  have B: "end_time ?R = Some t1" using rs by (cases res) (simp_all add: run_def)
  have C: "fst (run_stages ag q dir st sl an ?r0) = Raises e \<longrightarrow>
        status ?R = Some ''failed'' \<and> error ?R = Some (str_exn e) \<and> duration_seconds ?R = None
        \<and> stages ?R = stages (snd (run_stages ag q dir st sl an ?r0))
        \<and> list_all (\<lambda>(name, s). reported name s) (stages ?R)
        \<and> ((fst (extract_step ag q dir ?r0) = Raises e
               \<and> stages ?R = [] \<and> map_of (stages ?R) ''extract'' = None)
           \<or> (\<exists>ex r1. extract_step ag q dir ?r0 = (Returns ex, r1)
                 \<and> fst (transform_step ag q st ex r1) = Raises e
                 \<and> map fst (stages ?R) = [''extract'']
                 \<and> map_of (stages ?R) ''transform'' = None)
           \<or> (\<exists>ex r1 df r2. extract_step ag q dir ?r0 = (Returns ex, r1)
                 \<and> transform_step ag q st ex r1 = (Returns df, r2)
                 \<and> fst (load_step ag q sl df r2) = Raises e
                 \<and> map fst (stages ?R) = [''extract'', ''transform'']
                 \<and> map_of (stages ?R) ''load'' = None)
           \<or> (\<exists>ex r1 df r2 df' r3. extract_step ag q dir ?r0 = (Returns ex, r1)
                 \<and> transform_step ag q st ex r1 = (Returns df, r2)
                 \<and> load_step ag q sl df r2 = (Returns df', r3)
                 \<and> fst (analyze_step ag q an df' r3) = Raises e
                 \<and> map fst (stages ?R) = [''extract'', ''transform'', ''load'']
                 \<and> map_of (stages ?R) ''analyze'' = None))"
  proof
    assume "fst (run_stages ag q dir st sl an ?r0) = Raises e"
    with rs have res: "res = Raises e" by simp
    have f: "run_stages ag q dir st sl an ?r0 = (Raises e, r)" using rs res by simp
    have 1: "status ?R = Some ''failed''" using f by (simp add: run_def)
    have 2: "error ?R = Some (str_exn e)" using f by (simp add: run_def)
    have 3: "duration_seconds ?R = None" using f hd by (simp add: run_def)
    have 4: "stages ?R = stages (snd (run_stages ag q dir st sl an ?r0))" using sr rs by simp
    have 5: "list_all (\<lambda>(name, s). reported name s) (stages ?R)" using rep sr by simp
    note 6 = run_failure_cases[OF f z sr]
    show "status ?R = Some ''failed'' \<and> error ?R = Some (str_exn e) \<and> duration_seconds ?R = None
        \<and> stages ?R = stages (snd (run_stages ag q dir st sl an ?r0))
        \<and> list_all (\<lambda>(name, s). reported name s) (stages ?R)
        \<and> ((fst (extract_step ag q dir ?r0) = Raises e
               \<and> stages ?R = [] \<and> map_of (stages ?R) ''extract'' = None)
           \<or> (\<exists>ex r1. extract_step ag q dir ?r0 = (Returns ex, r1)
                 \<and> fst (transform_step ag q st ex r1) = Raises e
                 \<and> map fst (stages ?R) = [''extract'']
                 \<and> map_of (stages ?R) ''transform'' = None)
           \<or> (\<exists>ex r1 df r2. extract_step ag q dir ?r0 = (Returns ex, r1)
                 \<and> transform_step ag q st ex r1 = (Returns df, r2)
                 \<and> fst (load_step ag q sl df r2) = Raises e
                 \<and> map fst (stages ?R) = [''extract'', ''transform'']
                 \<and> map_of (stages ?R) ''load'' = None)
           \<or> (\<exists>ex r1 df r2 df' r3. extract_step ag q dir ?r0 = (Returns ex, r1)
                 \<and> transform_step ag q st ex r1 = (Returns df, r2)
                 \<and> load_step ag q sl df r2 = (Returns df', r3)
                 \<and> fst (analyze_step ag q an df' r3) = Raises e
                 \<and> map fst (stages ?R) = [''extract'', ''transform'', ''load'']
                 \<and> map_of (stages ?R) ''analyze'' = None))"
      using 1 2 3 4 5 6 by (intro conjI)
  qed
  show ?thesis using A B C by (intro conjI)
qed

lemma stub_run_stages:
  "run_stages stub_agents ''sum x'' ''processed'' False False True (initial_results ''sum x'' 10)
     = (Raises (Exception ''Transformation failed after 3 attempts. Last error: boom''),
        set_stage ''extract'' ''success'' (ExtractInfo [''a''] [(''a'', 1)]) (initial_results ''sum x'' 10))"
  by (simp add: run_stages_def seq_def extract_step_def transform_step_def stub_agents_def)

text \<open>
  Claim C6, as stated, fails: after a failure of the transform stage the record has no
  entry for that stage and no duration.
\<close>

theorem run_failure_no_stage_entry:
  "status (run stub_agents ''sum x'' ''processed'' False False True 10 25) = Some ''failed''
   \<and> map fst (stages (run stub_agents ''sum x'' ''processed'' False False True 10 25)) = [''extract'']
   \<and> map_of (stages (run stub_agents ''sum x'' ''processed'' False False True 10 25)) ''transform'' = None
   \<and> duration_seconds (run stub_agents ''sum x'' ''processed'' False False True 10 25) = None"
  unfolding run_def Let_def stub_run_stages
  by (simp add: set_stage_def initial_results_def)

theorem run_failure_record_witness:
  "status (run stub_agents ''sum x'' ''processed'' False False True 10 25) = Some ''failed''
   \<and> error (run stub_agents ''sum x'' ''processed'' False False True 10 25)
       = Some ''Transformation failed after 3 attempts. Last error: boom''
   \<and> end_time (run stub_agents ''sum x'' ''processed'' False False True 10 25) = Some 25
   \<and> duration_seconds (run stub_agents ''sum x'' ''processed'' False False True 10 25) = None
   \<and> fst (transform_step stub_agents ''sum x'' False
             [(''a'', \<lparr>columns = [ustr ''x''], data = [[''1'']]\<rparr>)] (initial_results ''sum x'' 10))
       = Raises (Exception ''Transformation failed after 3 attempts. Last error: boom'')"
proof -
  have f: "fst (run_stages stub_agents ''sum x'' ''processed'' False False True (initial_results ''sum x'' 10))
      = Raises (Exception ''Transformation failed after 3 attempts. Last error: boom'')"
    by (simp add: stub_run_stages)
  note t = run_failure_record[of stub_agents "''sum x''" "''processed''" False False True 10 25
      "Exception ''Transformation failed after 3 attempts. Last error: boom''"]
  note c = t[THEN conjunct2, THEN conjunct2, THEN mp, OF f]
  have 1: "status (run stub_agents ''sum x'' ''processed'' False False True 10 25) = Some ''failed''"
    by (rule c[THEN conjunct1])
  have 2: "error (run stub_agents ''sum x'' ''processed'' False False True 10 25)
       = Some ''Transformation failed after 3 attempts. Last error: boom''"
    using c[THEN conjunct2, THEN conjunct1] by (simp add: str_exn_def Exception_def)
  have 3: "end_time (run stub_agents ''sum x'' ''processed'' False False True 10 25) = Some 25"
    by (rule t[THEN conjunct2, THEN conjunct1])
  have 4: "duration_seconds (run stub_agents ''sum x'' ''processed'' False False True 10 25) = None"
    by (rule c[THEN conjunct2, THEN conjunct2, THEN conjunct1])
  have 5: "fst (transform_step stub_agents ''sum x'' False
             [(''a'', \<lparr>columns = [ustr ''x''], data = [[''1'']]\<rparr>)] (initial_results ''sum x'' 10))
       = Raises (Exception ''Transformation failed after 3 attempts. Last error: boom'')"
    by (simp add: transform_step_def stub_agents_def)
  show ?thesis using 1 2 3 4 5 by (intro conjI)
qed

end
